theory Spec2Isabelle
  imports Complex_Main
begin

section \<open>Zone occupancy analysis (Backend/app/routes/feeds\_routes.py)\<close>

text \<open>
  A shallow embedding of the route \<open>analyze_zone\<close> and of the helpers it calls. Conventions:
  \<^item> Python's integers are \<open>int\<close>; \<open>//\<close> and \<open>%\<close> are \<open>div\<close> and \<open>mod\<close> (both floor).
  \<^item> Python's floats are \<open>real\<close>. The only floating-point operations of the analysis are the
    quotient of two integers in \<open>calculate_iou\<close>, the comparison of that quotient with the
    literal \<open>0.3\<close>, and the mean of the counts. Python rounds the quotient of two integers
    correctly, so the float quotient of equal arguments is equal and \<open>n / n\<close> is exactly \<open>1.0\<close>.
    For union areas below \<open>2^26\<close> (boxes inside a frame of 8192 by 8192 pixels) two different
    quotients differ by more than \<open>2^-52\<close>, so they round to different floats in the same
    order, and a quotient differs from \<open>3/10\<close> by more than \<open>2^-30\<close>: the comparisons of the
    source agree with the comparisons of the exact quotients. The model computes with the
    exact quotient.
  \<^item> The keys of a dictionary become the fields of a record, with a short prefix naming the
    dictionary; local variables keep the source's names.
  \<^item> \<open>cv2.pointPolygonTest\<close> (with \<open>np.array\<close> before it) is library code: it is a parameter
    of the model, \<open>None\<close> when the call raises.
  \<^item> The wall clock (\<open>datetime.utcnow()\<close>) and \<open>ObjectId()\<close> are read by the route itself; each
    reading is an argument of the model.
\<close>

subsection \<open>Data\<close>

type_synonym point = "int \<times> int"
type_synonym polygon = "point list"
type_synonym box = "int \<times> int \<times> int \<times> int"
type_synonym polygon_test = "polygon \<Rightarrow> point \<Rightarrow> real option"
type_synonym datetime = string

text \<open>One entry of \<open>detections_cache\<close>, as \<open>upload_video\<close> writes it: the keys
  \<open>"timestamp"\<close>, \<open>"frame"\<close> and \<open>"boxes"\<close> are always present, and every box is a list of four
  integers (\<open>_boxes_to_serializable\<close>).\<close>

record detection =
  det_timestamp :: real
  det_frame :: int
  det_boxes :: "box list"

text \<open>An element of \<open>tracked_persons\<close>; the key \<open>'id'\<close> is the field \<open>person_id\<close>.\<close>

record tracked_person =
  person_id :: int
  first_frame :: int
  last_frame :: int
  last_box :: box

text \<open>The dictionary \<open>analysis_summary\<close>.\<close>

record analysis_summary =
  out_zone_id :: string
  out_zone_name :: "string option"
  out_frames_analyzed :: nat
  out_frame_step :: int
  out_fps :: real
  out_duration :: real
  out_avg_count :: real
  out_min_count :: int
  out_peak_count :: int
  out_peak_time :: real
  out_total_count :: int
  out_total_persons_passed :: nat
  out_counts_per_frame :: "int list"
  out_timestamps :: "real list"
  out_analyzed_at :: datetime
  out_analyzed_by :: string

text \<open>The dictionary \<open>history_entry\<close>.\<close>

record history_entry =
  h_analysis_id :: string
  h_zone_id :: string
  h_zone_name :: "string option"
  h_timestamp :: datetime
  h_avg_count :: real
  h_peak_count :: int
  h_total_count :: int
  h_total_persons_passed :: nat
  h_duration :: real
  h_analyzed_by :: string

text \<open>A zone of a feed, and the part of the feed document the route reads and writes.\<close>

record zone =
  z_zone_id :: string
  z_zone_name :: "string option"
  z_polygon :: polygon
  z_last_analysis :: "analysis_summary option"
  z_total_count :: "int option"
  z_analyzed_at :: "datetime option"

record feed =
  f_zones :: "zone list"
  f_detections_cache :: "detection list"
  f_summary_fps :: "real option"
  f_analysis_history :: "history_entry list"

text \<open>The values the route reads from its environment: the three readings of
  \<open>datetime.utcnow()\<close>, in program order, and the fresh \<open>ObjectId()\<close>.\<close>

record env =
  utcnow_summary :: datetime
  utcnow_zone :: datetime
  utcnow_history :: datetime
  new_object_id :: string

text \<open>The error responses of the route, and the one exception it does not catch.\<close>

datatype error =
    ZoneIdRequired
  | ZoneNotFound
  | InsufficientData
  | NoFramesMatched
  | StatisticsError
  | ZeroDivisionError

text \<open>The local variables that live across the iterations of the loop over the cache.\<close>

record loop_state =
  counts :: "int list"
  timestamps :: "real list"
  tracked_persons :: "tracked_person list"
  next_person_id :: int

subsection \<open>Geometry\<close>

definition is_point_in_polygon :: "polygon_test \<Rightarrow> point \<Rightarrow> polygon \<Rightarrow> bool" where
  "is_point_in_polygon ppt point polygon =
     (case ppt polygon point of None \<Rightarrow> False | Some result \<Rightarrow> result \<ge> 0)"

fun calculate_iou :: "box \<Rightarrow> box \<Rightarrow> real" where
  "calculate_iou (x1_1, y1_1, x2_1, y2_1) (x1_2, y1_2, x2_2, y2_2) =
     (let x_left = max x1_1 x1_2;
          y_top = max y1_1 y1_2;
          x_right = min x2_1 x2_2;
          y_bottom = min y2_1 y2_2
      in if x_right < x_left \<or> y_bottom < y_top then 0
         else
           let intersection_area = (x_right - x_left) * (y_bottom - y_top);
               box1_area = (x2_1 - x1_1) * (y2_1 - y1_1);
               box2_area = (x2_2 - x1_2) * (y2_2 - y1_2);
               union_area = box1_area + box2_area - intersection_area
           in if union_area > 0 then real_of_int intersection_area / real_of_int union_area
              else 0)"

subsection \<open>The loop over the boxes of a frame\<close>

text \<open>The body of \<open>for box in boxes\<close>. A box of the cache always unpacks into four
  integers and \<open>_is_point_in_polygon\<close> catches its own exceptions, so the \<open>except\<close> branch of
  the source is not reached.\<close>

fun in_zone_step :: "polygon_test \<Rightarrow> polygon \<Rightarrow> int \<times> box list \<Rightarrow> box \<Rightarrow> int \<times> box list" where
  "in_zone_step ppt polygon (count_in_zone, boxes_in_zone) (x1, y1, x2, y2) =
     (let cx = (x1 + x2) div 2;
          cy = (y1 + y2) div 2
      in if is_point_in_polygon ppt (cx, cy) polygon
         then (count_in_zone + 1, boxes_in_zone @ [(x1, y1, x2, y2)])
         else (count_in_zone, boxes_in_zone))"

subsection \<open>Tracking\<close>

definition iou_threshold :: real where
  "iou_threshold = 3 / 10"

text \<open>The body of the first \<open>for person in tracked_persons\<close>, on the triple
  \<open>(matched, best_match_id, best_iou)\<close>.\<close>

fun match_person :: "box \<Rightarrow> int \<Rightarrow> bool \<times> int option \<times> real \<Rightarrow> tracked_person
    \<Rightarrow> bool \<times> int option \<times> real" where
  "match_person box frame_idx (matched, best_match_id, best_iou) person =
     (if last_frame person \<ge> frame_idx - 10 then
        let iou = calculate_iou box (last_box person)
        in if iou > iou_threshold \<and> iou > best_iou
           then (True, Some (person_id person), iou)
           else (matched, best_match_id, best_iou)
      else (matched, best_match_id, best_iou))"

text \<open>The second \<open>for person in tracked_persons\<close>: the first person with the id is updated,
  then \<open>break\<close>.\<close>

fun update_person :: "int \<Rightarrow> box \<Rightarrow> int \<Rightarrow> tracked_person list \<Rightarrow> tracked_person list" where
  "update_person best_match_id box frame_idx [] = []"
| "update_person best_match_id box frame_idx (person # rest) =
     (if person_id person = best_match_id
      then person\<lparr>last_box := box, last_frame := frame_idx\<rparr> # rest
      else person # update_person best_match_id box frame_idx rest)"

definition new_person :: "int \<Rightarrow> int \<Rightarrow> box \<Rightarrow> tracked_person" where
  "new_person next_id frame_idx box =
     \<lparr>person_id = next_id, first_frame = frame_idx, last_frame = frame_idx, last_box = box\<rparr>"

text \<open>The body of \<open>for box in boxes_in_zone\<close>, on the pair
  \<open>(tracked_persons, next_person_id)\<close>. The list \<open>current_frame_persons\<close> of the source is
  written and never read; it is left out.\<close>

fun track_box :: "int \<Rightarrow> tracked_person list \<times> int \<Rightarrow> box \<Rightarrow> tracked_person list \<times> int" where
  "track_box frame_idx (persons, next_id) box =
     (case foldl (match_person box frame_idx) (False, None, 0) persons of
        (matched, best_match_id, best_iou) \<Rightarrow>
          (case best_match_id of
             Some i \<Rightarrow>
               if matched then (update_person i box frame_idx persons, next_id)
               else (persons @ [new_person next_id frame_idx box], next_id + 1)
           | None \<Rightarrow> (persons @ [new_person next_id frame_idx box], next_id + 1)))"

subsection \<open>The loop over the cache\<close>

text \<open>The body of \<open>for det in detections_cache\<close>. Python evaluates the default
  \<open>round(frame_idx / fps, 2)\<close> of \<open>det.get("timestamp", ...)\<close> before the call, so a frame rate
  of zero raises \<open>ZeroDivisionError\<close> at the first frame that is not skipped; the value of the
  key is what is appended.\<close>

definition process_frame :: "polygon_test \<Rightarrow> polygon \<Rightarrow> real \<Rightarrow> int \<Rightarrow> loop_state \<Rightarrow> detection
    \<Rightarrow> error + loop_state" where
  "process_frame ppt polygon fps frame_step st det =
     (let frame_idx = det_frame det
      in if frame_step > 1 \<and> frame_idx mod frame_step \<noteq> 0 then Inr st
         else
           case foldl (in_zone_step ppt polygon) (0, []) (det_boxes det) of
             (count_in_zone, boxes_in_zone) \<Rightarrow>
               (case foldl (track_box frame_idx) (tracked_persons st, next_person_id st)
                       boxes_in_zone of
                  (persons, next_id) \<Rightarrow>
                    if fps = 0 then Inl ZeroDivisionError
                    else Inr \<lparr>counts = counts st @ [count_in_zone],
                              timestamps = timestamps st @ [det_timestamp det],
                              tracked_persons = persons,
                              next_person_id = next_id\<rparr>))"

fun run_frames :: "polygon_test \<Rightarrow> polygon \<Rightarrow> real \<Rightarrow> int \<Rightarrow> loop_state \<Rightarrow> detection list
    \<Rightarrow> error + loop_state" where
  "run_frames ppt polygon fps frame_step st [] = Inr st"
| "run_frames ppt polygon fps frame_step st (det # rest) =
     (case process_frame ppt polygon fps frame_step st det of
        Inl e \<Rightarrow> Inl e
      | Inr st' \<Rightarrow> run_frames ppt polygon fps frame_step st' rest)"

definition initial_state :: loop_state where
  "initial_state = \<lparr>counts = [], timestamps = [], tracked_persons = [], next_person_id = 0\<rparr>"

subsection \<open>Statistics\<close>

text \<open>\<open>np.max\<close>, \<open>np.min\<close>, \<open>np.argmax\<close> and \<open>np.mean\<close> on a list of integers. The first three
  raise \<open>ValueError\<close> on an empty list (\<open>None\<close>); \<open>np.argmax\<close> scans from the left and keeps
  the first index of the largest value.\<close>

fun np_max :: "int list \<Rightarrow> int option" where
  "np_max [] = None"
| "np_max (x # xs) = Some (foldl max x xs)"

fun np_min :: "int list \<Rightarrow> int option" where
  "np_min [] = None"
| "np_min (x # xs) = Some (foldl min x xs)"

fun argmax_scan :: "nat \<Rightarrow> int \<Rightarrow> nat \<Rightarrow> int list \<Rightarrow> nat" where
  "argmax_scan best_idx best i [] = best_idx"
| "argmax_scan best_idx best i (x # xs) =
     (if x > best then argmax_scan i x (Suc i) xs else argmax_scan best_idx best (Suc i) xs)"

fun np_argmax :: "int list \<Rightarrow> nat option" where
  "np_argmax [] = None"
| "np_argmax (x # xs) = Some (argmax_scan 0 x 1 xs)"

definition np_mean :: "int list \<Rightarrow> real" where
  "np_mean xs = real_of_int (sum_list xs) / real (length xs)"

subsection \<open>The analysis\<close>

text \<open>The route from \<open>polygon = zone["polygon"]\<close> to the dictionary \<open>analysis_summary\<close>, for
  the zone \<open>z\<close> found under \<open>zone_id\<close>; \<open>now\<close> is the reading of \<open>datetime.utcnow()\<close> that stamps
  \<open>analyzed_at\<close>.\<close>

definition analyze :: "polygon_test \<Rightarrow> datetime \<Rightarrow> string \<Rightarrow> string \<Rightarrow> zone \<Rightarrow> real
    \<Rightarrow> detection list \<Rightarrow> int \<Rightarrow> error + analysis_summary" where
  "analyze ppt now current_user_email zone_id z fps detections_cache frame_step =
     (if detections_cache = [] then Inl InsufficientData
      else
        case run_frames ppt (z_polygon z) fps frame_step initial_state detections_cache of
          Inl e \<Rightarrow> Inl e
        | Inr st \<Rightarrow>
            if counts st = [] then Inl NoFramesMatched
            else
              (case (np_max (counts st), np_argmax (counts st), np_min (counts st)) of
                 (Some peak_count, Some peak_idx, Some min_count) \<Rightarrow>
                   Inr \<lparr>out_zone_id = zone_id,
                        out_zone_name = z_zone_name z,
                        out_frames_analyzed = length (counts st),
                        out_frame_step = frame_step,
                        out_fps = fps,
                        out_duration = (if timestamps st = [] then 0 else last (timestamps st)),
                        out_avg_count = np_mean (counts st),
                        out_min_count = min_count,
                        out_peak_count = peak_count,
                        out_peak_time =
                          (if peak_idx < length (timestamps st) then timestamps st ! peak_idx
                           else 0),
                        out_total_count = peak_count,
                        out_total_persons_passed = length (tracked_persons st),
                        out_counts_per_frame = counts st,
                        out_timestamps = timestamps st,
                        out_analyzed_at = now,
                        out_analyzed_by = current_user_email\<rparr>
               | _ \<Rightarrow> Inl StatisticsError))"

subsection \<open>The route\<close>

text \<open>\<open>$set\<close> on \<open>zones.$\<close>: the first zone with the id is updated.\<close>

fun set_zone_analysis :: "string \<Rightarrow> analysis_summary \<Rightarrow> int \<Rightarrow> datetime \<Rightarrow> zone list \<Rightarrow> zone list" where
  "set_zone_analysis zone_id summary total_detections t [] = []"
| "set_zone_analysis zone_id summary total_detections t (z # zs) =
     (if z_zone_id z = zone_id
      then z\<lparr>z_last_analysis := Some summary, z_total_count := Some total_detections,
              z_analyzed_at := Some t\<rparr> # zs
      else z # set_zone_analysis zone_id summary total_detections t zs)"

definition make_history_entry :: "env \<Rightarrow> zone \<Rightarrow> analysis_summary \<Rightarrow> history_entry" where
  "make_history_entry e z summary =
     \<lparr>h_analysis_id = new_object_id e,
      h_zone_id = out_zone_id summary,
      h_zone_name = z_zone_name z,
      h_timestamp = utcnow_history e,
      h_avg_count = out_avg_count summary,
      h_peak_count = out_peak_count summary,
      h_total_count = out_total_count summary,
      h_total_persons_passed = out_total_persons_passed summary,
      h_duration = out_duration summary,
      h_analyzed_by = out_analyzed_by summary\<rparr>"

text \<open>The two \<open>update_one\<close> calls: the zone's latest analysis is replaced and the history
  grows by one entry. The database is taken to accept both.\<close>

definition store_results :: "env \<Rightarrow> string \<Rightarrow> zone \<Rightarrow> analysis_summary \<Rightarrow> feed \<Rightarrow> feed" where
  "store_results e zone_id z summary fd =
     fd\<lparr>f_zones :=
          set_zone_analysis zone_id summary (out_total_count summary) (utcnow_zone e)
            (f_zones fd),
        f_analysis_history := f_analysis_history fd @ [make_history_entry e z summary]\<rparr>"

text \<open>The route \<open>analyze_zone\<close> after the caller is identified, the feed document is
  fetched and the caller's access to it is granted: \<open>zone_id_opt\<close> and \<open>frame_step0\<close> are the
  values read from the request (an absent \<open>zone_id\<close> is \<open>None\<close>), \<open>fd\<close> is the feed document.
  The result is the response and the feed document afterwards.\<close>

definition analyze_zone :: "polygon_test \<Rightarrow> env \<Rightarrow> string \<Rightarrow> feed \<Rightarrow> string option \<Rightarrow> int
    \<Rightarrow> (error + analysis_summary) \<times> feed" where
  "analyze_zone ppt e current_user_email fd zone_id_opt frame_step0 =
     (let zone_id = (case zone_id_opt of None \<Rightarrow> [] | Some s \<Rightarrow> s);
          frame_step = (if frame_step0 < 1 then 1 else frame_step0);
          fps = (case f_summary_fps fd of None \<Rightarrow> 10 | Some v \<Rightarrow> v)
      in if zone_id = [] then (Inl ZoneIdRequired, fd)
         else
           (case find (\<lambda>z. z_zone_id z = zone_id) (f_zones fd) of
              None \<Rightarrow> (Inl ZoneNotFound, fd)
            | Some z \<Rightarrow>
                (case analyze ppt (utcnow_summary e) current_user_email zone_id z fps
                        (f_detections_cache fd) frame_step of
                   Inl err \<Rightarrow> (Inl err, fd)
                 | Inr summary \<Rightarrow> (Inr summary, store_results e zone_id z summary fd))))"

text \<open>A polygon test to run the analysis on concrete inputs: the closed bounding rectangle
  of the vertices, which is the polygon itself when the polygon is an axis-parallel rectangle
  given by its four corners. The result is \<open>1\<close> inside, \<open>0\<close> on the edge and \<open>-1\<close> outside, as
  \<open>cv2.pointPolygonTest\<close> with \<open>measureDist=False\<close> reports.\<close>

definition rectangle_test :: polygon_test where
  "rectangle_test polygon point =
     (case polygon of
        [] \<Rightarrow> None
      | v # vs \<Rightarrow>
          let xs = map fst (v # vs); ys = map snd (v # vs);
              xmin = foldl min (fst v) xs; xmax = foldl max (fst v) xs;
              ymin = foldl min (snd v) ys; ymax = foldl max (snd v) ys;
              x = fst point; y = snd point
          in if x < xmin \<or> xmax < x \<or> y < ymin \<or> ymax < y then Some (-1)
             else if x = xmin \<or> x = xmax \<or> y = ymin \<or> y = ymax then Some 0
             else Some 1)"

subsection \<open>The predicates of the statements\<close>

text \<open>The test of a box in \<open>for box in boxes\<close>: the centroid, by floor division, is in the
  polygon.\<close>

definition box_in_zone :: "polygon_test \<Rightarrow> polygon \<Rightarrow> box \<Rightarrow> bool" where
  "box_in_zone ppt polygon box =
     (case box of (x1, y1, x2, y2) \<Rightarrow>
        is_point_in_polygon ppt ((x1 + x2) div 2, (y1 + y2) div 2) polygon)"

text \<open>A frame survives the filter of the source when the \<open>continue\<close> is not taken.\<close>

definition survives :: "int \<Rightarrow> detection \<Rightarrow> bool" where
  "survives frame_step det = (\<not> (frame_step > 1 \<and> det_frame det mod frame_step \<noteq> 0))"

text \<open>The filter in the words of the specification: \<open>frame_index % frameStride == 0\<close>.\<close>

definition frame_selected :: "int \<Rightarrow> detection \<Rightarrow> bool" where
  "frame_selected frameStride det = (det_frame det mod frameStride = 0)"

text \<open>The occupancy of one frame: the number of its boxes in the zone.\<close>

definition frame_count :: "polygon_test \<Rightarrow> polygon \<Rightarrow> detection \<Rightarrow> int" where
  "frame_count ppt polygon det = int (length (filter (box_in_zone ppt polygon) (det_boxes det)))"

text \<open>A tracked person is a candidate for a box of frame \<open>frame_idx\<close> when it was last seen
  at most 10 frame indices back.\<close>

definition is_candidate :: "int \<Rightarrow> tracked_person \<Rightarrow> bool" where
  "is_candidate frame_idx person = (frame_idx - last_frame person \<le> 10)"

text \<open>The ids handed out so far are \<open>0, 1, ...\<close> in the order of the list, and
  \<open>next_person_id\<close> is their number.\<close>

definition tracker_inv :: "tracked_person list \<times> int \<Rightarrow> bool" where
  "tracker_inv tr =
     (case tr of (persons, next_id) \<Rightarrow>
        map person_id persons = map int [0..<length persons] \<and> next_id = int (length persons))"

subsection \<open>Derived states\<close>

text \<open>The state after a frame that is not skipped, when the frame rate is not zero.\<close>

definition frame_result :: "polygon_test \<Rightarrow> polygon \<Rightarrow> loop_state \<Rightarrow> detection \<Rightarrow> loop_state" where
  "frame_result ppt polygon st det =
     (let tr = foldl (track_box (det_frame det)) (tracked_persons st, next_person_id st)
                 (filter (box_in_zone ppt polygon) (det_boxes det))
      in \<lparr>counts = counts st @ [frame_count ppt polygon det],
          timestamps = timestamps st @ [det_timestamp det],
          tracked_persons = fst tr,
          next_person_id = snd tr\<rparr>)"

text \<open>The state after the loop over the cache, when no frame raises.\<close>

definition final_state :: "polygon_test \<Rightarrow> polygon \<Rightarrow> int \<Rightarrow> detection list \<Rightarrow> loop_state" where
  "final_state ppt polygon frame_step cache =
     foldl (frame_result ppt polygon) initial_state (filter (survives frame_step) cache)"

text \<open>The dictionary \<open>analysis_summary\<close> built from the final state of the loop.\<close>

definition make_summary :: "datetime \<Rightarrow> string \<Rightarrow> string \<Rightarrow> zone \<Rightarrow> real \<Rightarrow> int \<Rightarrow> loop_state
    \<Rightarrow> analysis_summary" where
  "make_summary now current_user_email zone_id z fps frame_step st =
     \<lparr>out_zone_id = zone_id,
      out_zone_name = z_zone_name z,
      out_frames_analyzed = length (counts st),
      out_frame_step = frame_step,
      out_fps = fps,
      out_duration = (if timestamps st = [] then 0 else last (timestamps st)),
      out_avg_count = np_mean (counts st),
      out_min_count = Min (set (counts st)),
      out_peak_count = Max (set (counts st)),
      out_peak_time = timestamps st ! the (np_argmax (counts st)),
      out_total_count = Max (set (counts st)),
      out_total_persons_passed = length (tracked_persons st),
      out_counts_per_frame = counts st,
      out_timestamps = timestamps st,
      out_analyzed_at = now,
      out_analyzed_by = current_user_email\<rparr>"

text \<open>Index \<open>k\<close> holds the first candidate of the largest overlap with the box, and that
  overlap is above the threshold.\<close>

definition best_candidate :: "box \<Rightarrow> int \<Rightarrow> tracked_person list \<Rightarrow> nat \<Rightarrow> bool" where
  "best_candidate box frame_idx persons k =
     (k < length persons \<and> is_candidate frame_idx (persons ! k) \<and>
      calculate_iou box (last_box (persons ! k)) > iou_threshold \<and>
      (\<forall>j < length persons. is_candidate frame_idx (persons ! j) \<longrightarrow>
          calculate_iou box (last_box (persons ! j)) \<le> calculate_iou box (last_box (persons ! k))) \<and>
      (\<forall>j < k. is_candidate frame_idx (persons ! j) \<longrightarrow>
          calculate_iou box (last_box (persons ! j)) < calculate_iou box (last_box (persons ! k))))"

text \<open>No candidate overlaps the box by more than the threshold.\<close>

definition no_candidate :: "box \<Rightarrow> int \<Rightarrow> tracked_person list \<Rightarrow> bool" where
  "no_candidate box frame_idx persons =
     (\<forall>j < length persons. is_candidate frame_idx (persons ! j) \<longrightarrow>
          calculate_iou box (last_box (persons ! j)) \<le> iou_threshold)"

text \<open>The invariant of the tracker, on the state of the loop.\<close>

definition state_inv :: "loop_state \<Rightarrow> bool" where
  "state_inv st = tracker_inv (tracked_persons st, next_person_id st)"

subsection \<open>A concrete feed\<close>

text \<open>A square zone, and a cache of three frames: two overlapping boxes in the zone in frame
  0, one of them again in frame 5, and a box outside the zone in frame 10.\<close>

definition demo_polygon :: polygon where
  "demo_polygon = [(0, 0), (100, 0), (100, 100), (0, 100)]"

definition demo_zone :: zone where
  "demo_zone =
     \<lparr>z_zone_id = ''z1'', z_zone_name = Some ''Entrance'', z_polygon = demo_polygon,
      z_last_analysis = None, z_total_count = None, z_analyzed_at = None\<rparr>"

definition demo_cache :: "detection list" where
  "demo_cache =
     [\<lparr>det_timestamp = 0, det_frame = 0, det_boxes = [(10, 10, 30, 50), (12, 10, 32, 50)]\<rparr>,
      \<lparr>det_timestamp = 1 / 2, det_frame = 5, det_boxes = [(12, 10, 32, 50)]\<rparr>,
      \<lparr>det_timestamp = 1, det_frame = 10, det_boxes = [(200, 200, 220, 240)]\<rparr>]"

definition demo_feed :: feed where
  "demo_feed =
     \<lparr>f_zones = [demo_zone], f_detections_cache = demo_cache, f_summary_fps = None,
      f_analysis_history = []\<rparr>"

definition demo_env :: env where
  "demo_env =
     \<lparr>utcnow_summary = ''2024-01-01T00:00:00'', utcnow_zone = ''2024-01-01T00:00:01'',
      utcnow_history = ''2024-01-01T00:00:02'', new_object_id = ''65920080a1b2c3d4e5f60718''\<rparr>"

text \<open>The summary of the analysis of the concrete feed.\<close>

definition demo_summary :: analysis_summary where
  "demo_summary =
     \<lparr>out_zone_id = ''z1'', out_zone_name = Some ''Entrance'', out_frames_analyzed = 3,
      out_frame_step = 1, out_fps = 10, out_duration = 1, out_avg_count = 1,
      out_min_count = 0, out_peak_count = 2, out_peak_time = 0, out_total_count = 2,
      out_total_persons_passed = 1, out_counts_per_frame = [2, 1, 0],
      out_timestamps = [0, 1 / 2, 1], out_analyzed_at = ''2024-01-01T00:00:00'',
      out_analyzed_by = ''ann@example.org''\<rparr>"

subsection \<open>Boxes\<close>

text \<open>A bounding box of the data model has \<open>x1 \<le> x2\<close> and \<open>y1 \<le> y2\<close>.\<close>

definition valid_box :: "box \<Rightarrow> bool" where
  "valid_box b = (case b of (x1, y1, x2, y2) \<Rightarrow> x1 \<le> x2 \<and> y1 \<le> y2)"

text \<open>The expressions \<open>box1_area\<close>, \<open>x_right - x_left\<close>, \<open>y_bottom - y_top\<close> and \<open>union_area\<close>
  of \<open>calculate_iou\<close>, as functions of the boxes.\<close>

definition box_area :: "box \<Rightarrow> int" where
  "box_area b = (case b of (x1, y1, x2, y2) \<Rightarrow> (x2 - x1) * (y2 - y1))"

definition overlap_width :: "box \<Rightarrow> box \<Rightarrow> int" where
  "overlap_width a b =
     (case a of (x1_1, y1_1, x2_1, y2_1) \<Rightarrow>
        case b of (x1_2, y1_2, x2_2, y2_2) \<Rightarrow> min x2_1 x2_2 - max x1_1 x1_2)"

definition overlap_height :: "box \<Rightarrow> box \<Rightarrow> int" where
  "overlap_height a b =
     (case a of (x1_1, y1_1, x2_1, y2_1) \<Rightarrow>
        case b of (x1_2, y1_2, x2_2, y2_2) \<Rightarrow> min y2_1 y2_2 - max y1_1 y1_2)"

definition union_area :: "box \<Rightarrow> box \<Rightarrow> int" where
  "union_area a b = box_area a + box_area b - overlap_width a b * overlap_height a b"

text \<open>A person tracked since frame 0.\<close>

definition demo_person :: tracked_person where
  "demo_person = \<lparr>person_id = 0, first_frame = 0, last_frame = 0, last_box = (10, 10, 30, 50)\<rparr>"

section \<open>The loops in closed form\<close>

lemma in_zone_loop:
  "foldl (in_zone_step ppt polygon) (c, bs) boxes =
     (c + int (length (filter (box_in_zone ppt polygon) boxes)),
      bs @ filter (box_in_zone ppt polygon) boxes)"
proof (induction boxes arbitrary: c bs)
  case Nil
  show ?case by simp
next
  case (Cons b boxes)
  obtain x1 y1 x2 y2 where b: "b = (x1, y1, x2, y2)" by (cases b) auto
  show ?case
    by (simp add: b Cons.IH box_in_zone_def Let_def)
qed

lemma Max_insert_max: "finite S \<Longrightarrow> Max (insert (max x a) S) = max (x::int) (Max (insert a S))"
  by (cases "S = {}") (simp_all add: max.assoc)

lemma Min_insert_min: "finite S \<Longrightarrow> Min (insert (min x a) S) = min (x::int) (Min (insert a S))"
  by (cases "S = {}") (simp_all add: min.assoc)

lemma foldl_max_Max: "foldl max (x::int) xs = Max (insert x (set xs))"
  by (induction xs arbitrary: x) (simp_all add: Max_insert_max)

lemma foldl_min_Min: "foldl min (x::int) xs = Min (insert x (set xs))"
  by (induction xs arbitrary: x) (simp_all add: Min_insert_min)

lemma np_max_Max: "xs \<noteq> [] \<Longrightarrow> np_max xs = Some (Max (set xs))"
  by (cases xs) (simp_all add: foldl_max_Max)

lemma np_min_Min: "xs \<noteq> [] \<Longrightarrow> np_min xs = Some (Min (set xs))"
  by (cases xs) (simp_all add: foldl_min_Min)

lemma argmax_scan_first:
  assumes "bi < length pre" and "pre ! bi = b"
    and "\<forall>j < length pre. pre ! j \<le> b" and "\<forall>j < bi. pre ! j < b"
  shows "argmax_scan bi b (length pre) xs < length (pre @ xs) \<and>
         (\<forall>j < length (pre @ xs). (pre @ xs) ! j \<le> (pre @ xs) ! argmax_scan bi b (length pre) xs) \<and>
         (\<forall>j < argmax_scan bi b (length pre) xs.
             (pre @ xs) ! j < (pre @ xs) ! argmax_scan bi b (length pre) xs)"
  using assms
proof (induction xs arbitrary: pre bi b)
  case Nil
  then show ?case by simp
next
  case (Cons x xs)
  show ?case
  proof (cases "x > b")
    case True
    have 1: "length pre < length (pre @ [x])" by simp
    have 2: "(pre @ [x]) ! length pre = x" by simp
    have 3: "\<forall>j < length (pre @ [x]). (pre @ [x]) ! j \<le> x"
      using Cons.prems(3) True by (auto simp: nth_append less_Suc_eq)
    have 4: "\<forall>j < length pre. (pre @ [x]) ! j < x"
      using Cons.prems(3) True by (auto simp: nth_append)
    from Cons.IH[OF 1 2 3 4] True show ?thesis by simp
  next
    case False
    have 1: "bi < length (pre @ [x])" using Cons.prems(1) by simp
    have 2: "(pre @ [x]) ! bi = b" using Cons.prems(1,2) by (simp add: nth_append)
    have 3: "\<forall>j < length (pre @ [x]). (pre @ [x]) ! j \<le> b"
      using Cons.prems(3) False by (auto simp: nth_append less_Suc_eq)
    have 4: "\<forall>j < bi. (pre @ [x]) ! j < b"
      using Cons.prems(1,4) by (auto simp: nth_append)
    from Cons.IH[OF 1 2 3 4] False show ?thesis by simp
  qed
qed

lemma np_argmax_first:
  assumes "xs \<noteq> []"
  shows "\<exists>k. np_argmax xs = Some k \<and> k < length xs \<and> xs ! k = Max (set xs) \<and>
             (\<forall>j < k. xs ! j < Max (set xs))"
proof -
  obtain x rest where xs: "xs = x # rest" using assms by (cases xs) auto
  define k where "k = argmax_scan 0 x 1 rest"
  have "argmax_scan 0 x (length [x]) rest < length ([x] @ rest) \<and>
         (\<forall>j < length ([x] @ rest). ([x] @ rest) ! j \<le> ([x] @ rest) ! argmax_scan 0 x (length [x]) rest) \<and>
         (\<forall>j < argmax_scan 0 x (length [x]) rest.
             ([x] @ rest) ! j < ([x] @ rest) ! argmax_scan 0 x (length [x]) rest)"
    by (rule argmax_scan_first) simp_all
  then have k: "k < length xs" and le: "\<forall>j < length xs. xs ! j \<le> xs ! k"
    and lt: "\<forall>j < k. xs ! j < xs ! k"
    by (simp_all add: k_def xs)
  have "Max (set xs) = xs ! k"
  proof (rule Max_eqI)
    show "finite (set xs)" by simp
    show "xs ! k \<in> set xs" using k by simp
    fix y assume "y \<in> set xs"
    then obtain j where "j < length xs" "xs ! j = y" by (auto simp: in_set_conv_nth)
    then show "y \<le> xs ! k" using le by auto
  qed
  then show ?thesis using k lt by (simp add: xs k_def)
qed

lemma process_frame_skip:
  "\<not> survives frame_step det \<Longrightarrow> process_frame ppt polygon fps frame_step st det = Inr st"
  by (simp add: process_frame_def survives_def)

lemma process_frame_zero:
  "survives frame_step det \<Longrightarrow> process_frame ppt polygon 0 frame_step st det = Inl ZeroDivisionError"
  by (auto simp add: process_frame_def survives_def Let_def in_zone_loop split: prod.splits)

lemma process_frame_run:
  "survives frame_step det \<Longrightarrow> fps \<noteq> 0 \<Longrightarrow>
   process_frame ppt polygon fps frame_step st det = Inr (frame_result ppt polygon st det)"
  by (auto simp add: process_frame_def survives_def Let_def in_zone_loop frame_result_def
        frame_count_def split: prod.splits)

lemma run_frames_zero:
  "filter (survives frame_step) cache \<noteq> [] \<Longrightarrow>
   run_frames ppt polygon 0 frame_step st cache = Inl ZeroDivisionError"
proof (induction cache arbitrary: st)
  case Nil
  then show ?case by simp
next
  case (Cons det rest)
  show ?case
  proof (cases "survives frame_step det")
    case True
    then show ?thesis by (simp add: process_frame_zero)
  next
    case False
    with Cons show ?thesis by (simp add: process_frame_skip)
  qed
qed

lemma run_frames_none:
  "filter (survives frame_step) cache = [] \<Longrightarrow>
   run_frames ppt polygon fps frame_step st cache = Inr st"
proof (induction cache arbitrary: st)
  case Nil
  then show ?case by simp
next
  case (Cons det rest)
  then have "\<not> survives frame_step det" and "filter (survives frame_step) rest = []"
    by (auto split: if_splits)
  with Cons.IH show ?case by (simp add: process_frame_skip)
qed

lemma run_frames_run:
  "fps \<noteq> 0 \<Longrightarrow>
   run_frames ppt polygon fps frame_step st cache =
     Inr (foldl (frame_result ppt polygon) st (filter (survives frame_step) cache))"
proof (induction cache arbitrary: st)
  case Nil
  then show ?case by simp
next
  case (Cons det rest)
  show ?case
  proof (cases "survives frame_step det")
    case True
    with Cons show ?thesis by (simp add: process_frame_run)
  next
    case False
    with Cons show ?thesis by (simp add: process_frame_skip)
  qed
qed

lemma foldl_frame_result_counts:
  "counts (foldl (frame_result ppt polygon) st ds) = counts st @ map (frame_count ppt polygon) ds"
  by (induction ds arbitrary: st) (simp_all add: frame_result_def Let_def)

lemma foldl_frame_result_timestamps:
  "timestamps (foldl (frame_result ppt polygon) st ds) = timestamps st @ map det_timestamp ds"
  by (induction ds arbitrary: st) (simp_all add: frame_result_def Let_def)

lemma run_frames_Inr:
  assumes "run_frames ppt polygon fps frame_step st cache = Inr st'"
  shows "st' = foldl (frame_result ppt polygon) st (filter (survives frame_step) cache)"
proof (cases "fps = 0")
  case False
  with assms show ?thesis by (simp add: run_frames_run)
next
  case True
  show ?thesis
  proof (cases "filter (survives frame_step) cache = []")
    case True
    with assms show ?thesis by (simp add: run_frames_none)
  next
    case False
    with assms \<open>fps = 0\<close> show ?thesis by (simp add: run_frames_zero)
  qed
qed

lemma final_state_counts:
  "counts (final_state ppt polygon frame_step cache) =
     map (frame_count ppt polygon) (filter (survives frame_step) cache)"
  by (simp add: final_state_def foldl_frame_result_counts initial_state_def)

lemma final_state_timestamps:
  "timestamps (final_state ppt polygon frame_step cache) =
     map det_timestamp (filter (survives frame_step) cache)"
  by (simp add: final_state_def foldl_frame_result_timestamps initial_state_def)

lemma summary_of_state:
  assumes "counts st \<noteq> []" and "length (timestamps st) = length (counts st)"
  shows "(case (np_max (counts st), np_argmax (counts st), np_min (counts st)) of
            (Some peak_count, Some peak_idx, Some min_count) \<Rightarrow>
              Inr \<lparr>out_zone_id = zone_id,
                   out_zone_name = z_zone_name z,
                   out_frames_analyzed = length (counts st),
                   out_frame_step = frame_step,
                   out_fps = fps,
                   out_duration = (if timestamps st = [] then 0 else last (timestamps st)),
                   out_avg_count = np_mean (counts st),
                   out_min_count = min_count,
                   out_peak_count = peak_count,
                   out_peak_time =
                     (if peak_idx < length (timestamps st) then timestamps st ! peak_idx
                      else 0),
                   out_total_count = peak_count,
                   out_total_persons_passed = length (tracked_persons st),
                   out_counts_per_frame = counts st,
                   out_timestamps = timestamps st,
                   out_analyzed_at = now,
                   out_analyzed_by = current_user_email\<rparr>
          | _ \<Rightarrow> Inl StatisticsError) =
         Inr (make_summary now current_user_email zone_id z fps frame_step st)"
proof -
  obtain k where k: "np_argmax (counts st) = Some k" "k < length (counts st)"
    using np_argmax_first[OF assms(1)] by blast
  show ?thesis
    using k assms by (simp add: np_max_Max np_min_Min make_summary_def)
qed

lemma analyze_cases:
  "analyze ppt now current_user_email zone_id z fps cache frame_step =
     (if cache = [] then Inl InsufficientData
      else if filter (survives frame_step) cache = [] then Inl NoFramesMatched
      else if fps = 0 then Inl ZeroDivisionError
      else Inr (make_summary now current_user_email zone_id z fps frame_step
                  (final_state ppt (z_polygon z) frame_step cache)))"
proof (cases "cache = []")
  case True
  then show ?thesis by (simp add: analyze_def)
next
  case ne: False
  show ?thesis
  proof (cases "filter (survives frame_step) cache = []")
    case True
    then show ?thesis using ne
      by (simp add: analyze_def run_frames_none initial_state_def)
  next
    case sv: False
    show ?thesis
    proof (cases "fps = 0")
      case True
      then show ?thesis using ne sv by (simp add: analyze_def run_frames_zero)
    next
      case False
      let ?st = "final_state ppt (z_polygon z) frame_step cache"
      have run: "run_frames ppt (z_polygon z) fps frame_step initial_state cache = Inr ?st"
        using False by (simp add: run_frames_run final_state_def)
      have c: "counts ?st \<noteq> []" using sv by (simp add: final_state_counts)
      have l: "length (timestamps ?st) = length (counts ?st)"
        by (simp add: final_state_counts final_state_timestamps)
      have "analyze ppt now current_user_email zone_id z fps cache frame_step =
              Inr (make_summary now current_user_email zone_id z fps frame_step ?st)"
        unfolding analyze_def run
        by (simp only: ne c if_False sum.case) (rule summary_of_state[OF c l])
      then show ?thesis using ne sv False by simp
    qed
  qed
qed

lemma match_person_unfold:
  "match_person box frame_idx acc person =
     (if is_candidate frame_idx person \<and> calculate_iou box (last_box person) > iou_threshold
         \<and> calculate_iou box (last_box person) > snd (snd acc)
      then (True, Some (person_id person), calculate_iou box (last_box person))
      else acc)"
  by (cases acc) (auto simp: is_candidate_def Let_def)

lemma match_loop:
  "(no_candidate box frame_idx persons \<and>
      foldl (match_person box frame_idx) (False, None, 0) persons = (False, None, 0)) \<or>
   (\<exists>k. best_candidate box frame_idx persons k \<and>
      foldl (match_person box frame_idx) (False, None, 0) persons =
        (True, Some (person_id (persons ! k)), calculate_iou box (last_box (persons ! k))))"
proof (induction persons rule: rev_induct)
  case Nil
  show ?case by (simp add: no_candidate_def)
next
  case (snoc p ps)
  let ?iou = "\<lambda>q. calculate_iou box (last_box q)"
  let ?acc = "foldl (match_person box frame_idx) (False, None, 0) ps"
  from snoc show ?case
  proof (elim disjE conjE exE)
    assume none: "no_candidate box frame_idx ps" and acc: "?acc = (False, None, 0)"
    show ?thesis
    proof (cases "is_candidate frame_idx p \<and> ?iou p > iou_threshold")
      case True
      have "best_candidate box frame_idx (ps @ [p]) (length ps)"
        using True none
        by (auto simp: best_candidate_def no_candidate_def nth_append less_Suc_eq)
      moreover have "foldl (match_person box frame_idx) (False, None, 0) (ps @ [p]) =
          (True, Some (person_id p), ?iou p)"
        using True acc by (simp add: match_person_unfold iou_threshold_def)
      ultimately show ?thesis by (intro disjI2 exI[of _ "length ps"]) simp
    next
      case False
      have "no_candidate box frame_idx (ps @ [p])"
        using False none by (auto simp: no_candidate_def nth_append less_Suc_eq)
      moreover have "foldl (match_person box frame_idx) (False, None, 0) (ps @ [p]) =
          (False, None, 0)"
        using False acc by (auto simp add: match_person_unfold)
      ultimately show ?thesis by simp
    qed
  next
    fix k
    assume best: "best_candidate box frame_idx ps k"
      and acc: "?acc = (True, Some (person_id (ps ! k)), ?iou (ps ! k))"
    have k: "k < length ps" using best by (simp add: best_candidate_def)
    show ?thesis
    proof (cases "is_candidate frame_idx p \<and> ?iou p > iou_threshold \<and> ?iou p > ?iou (ps ! k)")
      case True
      have "best_candidate box frame_idx (ps @ [p]) (length ps)"
        using True best
        by (auto simp: best_candidate_def nth_append less_Suc_eq)
      moreover have "foldl (match_person box frame_idx) (False, None, 0) (ps @ [p]) =
          (True, Some (person_id p), ?iou p)"
        using True acc by (simp add: match_person_unfold)
      ultimately show ?thesis by (intro disjI2 exI[of _ "length ps"]) simp
    next
      case False
      have "best_candidate box frame_idx (ps @ [p]) k"
        using False best
        by (auto simp: best_candidate_def nth_append less_Suc_eq)
      moreover have "foldl (match_person box frame_idx) (False, None, 0) (ps @ [p]) =
          (True, Some (person_id ((ps @ [p]) ! k)), ?iou ((ps @ [p]) ! k))"
        using False acc k by (auto simp add: match_person_unfold nth_append)
      ultimately show ?thesis by (intro disjI2 exI[of _ k]) simp
    qed
  qed
qed

lemma update_person_ids:
  "map person_id (update_person i box frame_idx persons) = map person_id persons"
  by (induction persons) simp_all

lemma update_person_length:
  "length (update_person i box frame_idx persons) = length persons"
  by (induction persons) simp_all

lemma update_person_nth:
  "k < length persons \<Longrightarrow> \<forall>j < k. person_id (persons ! j) \<noteq> person_id (persons ! k) \<Longrightarrow>
   update_person (person_id (persons ! k)) box frame_idx persons =
     persons[k := (persons ! k)\<lparr>last_box := box, last_frame := frame_idx\<rparr>]"
proof (induction persons arbitrary: k)
  case Nil
  then show ?case by simp
next
  case (Cons p ps)
  show ?case
  proof (cases k)
    case 0
    then show ?thesis by simp
  next
    case (Suc k')
    have ne: "person_id p \<noteq> person_id (ps ! k')"
      using Cons.prems(2) Suc by auto
    have "\<forall>j < k'. person_id (ps ! j) \<noteq> person_id (ps ! k')"
      using Cons.prems(2) Suc by auto
    moreover have "k' < length ps" using Cons.prems(1) Suc by simp
    ultimately show ?thesis using Cons.IH[of k'] ne Suc by simp
  qed
qed

lemma tracker_inv_nth:
  "tracker_inv (persons, next_id) \<Longrightarrow> k < length persons \<Longrightarrow> person_id (persons ! k) = int k"
proof -
  assume inv: "tracker_inv (persons, next_id)" and k: "k < length persons"
  have "map person_id persons ! k = map int [0..<length persons] ! k"
    using inv by (simp add: tracker_inv_def)
  then show ?thesis using k by simp
qed

lemma track_box_cases:
  "(no_candidate box frame_idx persons \<and>
      track_box frame_idx (persons, next_id) box =
        (persons @ [new_person next_id frame_idx box], next_id + 1)) \<or>
   (\<exists>k. best_candidate box frame_idx persons k \<and>
      track_box frame_idx (persons, next_id) box =
        (update_person (person_id (persons ! k)) box frame_idx persons, next_id))"
  using match_loop[of box frame_idx persons] by auto

declare track_box.simps [simp del]

lemma no_candidate_not_best:
  "no_candidate box frame_idx persons \<Longrightarrow> \<not> best_candidate box frame_idx persons k"
  by (auto simp: no_candidate_def best_candidate_def)

lemma best_candidate_unique:
  "best_candidate box frame_idx persons k \<Longrightarrow> best_candidate box frame_idx persons k' \<Longrightarrow> k = k'"
proof (rule ccontr)
  assume a: "best_candidate box frame_idx persons k" and b: "best_candidate box frame_idx persons k'"
    and ne: "k \<noteq> k'"
  then consider "k < k'" | "k' < k" by linarith
  then show False
  proof cases
    case 1
    with a b show False by (auto simp: best_candidate_def) force
  next
    case 2
    with a b show False by (auto simp: best_candidate_def) force
  qed
qed

lemma track_box_inv:
  assumes "tracker_inv tr"
  shows "tracker_inv (track_box frame_idx tr box)"
proof -
  obtain persons next_id where tr: "tr = (persons, next_id)" by (cases tr)
  from track_box_cases[of box frame_idx persons next_id] show ?thesis
  proof (elim disjE conjE exE)
    assume "track_box frame_idx (persons, next_id) box =
        (persons @ [new_person next_id frame_idx box], next_id + 1)"
    then show ?thesis using assms
      by (simp add: tr tracker_inv_def new_person_def)
  next
    fix k
    assume "track_box frame_idx (persons, next_id) box =
        (update_person (person_id (persons ! k)) box frame_idx persons, next_id)"
    then show ?thesis using assms
      by (simp add: tr tracker_inv_def update_person_ids update_person_length)
  qed
qed

lemma track_box_nonempty: "fst (track_box frame_idx tr box) \<noteq> []"
proof -
  obtain persons next_id where tr: "tr = (persons, next_id)" by (cases tr)
  from track_box_cases[of box frame_idx persons next_id] show ?thesis
  proof (elim disjE conjE exE)
    assume "track_box frame_idx (persons, next_id) box =
        (persons @ [new_person next_id frame_idx box], next_id + 1)"
    then show ?thesis by (simp add: tr)
  next
    fix k
    assume "best_candidate box frame_idx persons k"
      and "track_box frame_idx (persons, next_id) box =
        (update_person (person_id (persons ! k)) box frame_idx persons, next_id)"
    then have "length (fst (track_box frame_idx tr box)) = length persons" and "k < length persons"
      by (simp_all add: tr update_person_length best_candidate_def)
    then show ?thesis by auto
  qed
qed

lemma track_box_length: "length (fst tr) \<le> length (fst (track_box frame_idx tr box))"
proof -
  obtain persons next_id where tr: "tr = (persons, next_id)" by (cases tr)
  from track_box_cases[of box frame_idx persons next_id] show ?thesis
    by (auto simp: tr update_person_length)
qed

lemma foldl_track_box_inv:
  "tracker_inv tr \<Longrightarrow> tracker_inv (foldl (track_box frame_idx) tr bs)"
  by (induction bs arbitrary: tr) (simp_all add: track_box_inv)

lemma foldl_track_box_length:
  "length (fst tr) \<le> length (fst (foldl (track_box frame_idx) tr bs))"
proof (induction bs arbitrary: tr)
  case Nil
  show ?case by simp
next
  case (Cons b bs)
  have "length (fst tr) \<le> length (fst (track_box frame_idx tr b))"
    by (rule track_box_length)
  also have "\<dots> \<le> length (fst (foldl (track_box frame_idx) (track_box frame_idx tr b) bs))"
    by (rule Cons.IH)
  finally show ?case by simp
qed

lemma foldl_track_box_empty:
  "fst (foldl (track_box frame_idx) tr bs) = [] \<longleftrightarrow> fst tr = [] \<and> bs = []"
proof (cases bs)
  case Nil
  then show ?thesis by simp
next
  case (Cons b bs')
  have "0 < length (fst (track_box frame_idx tr b))"
    using track_box_nonempty[of frame_idx tr b] by simp
  also have "\<dots> \<le> length (fst (foldl (track_box frame_idx) (track_box frame_idx tr b) bs'))"
    by (rule foldl_track_box_length)
  finally show ?thesis using Cons by simp
qed

lemma frame_result_inv: "state_inv st \<Longrightarrow> state_inv (frame_result ppt polygon st det)"
  by (simp add: state_inv_def frame_result_def Let_def foldl_track_box_inv)

lemma foldl_frame_result_inv:
  "state_inv st \<Longrightarrow> state_inv (foldl (frame_result ppt polygon) st ds)"
  by (induction ds arbitrary: st) (simp_all add: frame_result_inv)

lemma frame_result_empty:
  "tracked_persons (frame_result ppt polygon st det) = [] \<longleftrightarrow>
     tracked_persons st = [] \<and> frame_count ppt polygon det = 0"
  by (simp add: frame_result_def Let_def foldl_track_box_empty frame_count_def)

lemma foldl_frame_result_empty:
  "tracked_persons (foldl (frame_result ppt polygon) st ds) = [] \<longleftrightarrow>
     tracked_persons st = [] \<and> (\<forall>det \<in> set ds. frame_count ppt polygon det = 0)"
  by (induction ds arbitrary: st) (auto simp: frame_result_empty)

lemma final_state_inv: "state_inv (final_state ppt polygon frame_step cache)"
  unfolding final_state_def
  by (rule foldl_frame_result_inv) (simp add: state_inv_def initial_state_def tracker_inv_def)

lemma final_state_empty:
  "tracked_persons (final_state ppt polygon frame_step cache) = [] \<longleftrightarrow>
     (\<forall>det \<in> set cache. survives frame_step det \<longrightarrow> frame_count ppt polygon det = 0)"
  by (auto simp add: final_state_def foldl_frame_result_empty initial_state_def)

section \<open>The concrete feed, evaluated\<close>

lemma demo_in_zone:
  "box_in_zone rectangle_test demo_polygon (10, 10, 30, 50)"
  "box_in_zone rectangle_test demo_polygon (12, 10, 32, 50)"
  "\<not> box_in_zone rectangle_test demo_polygon (200, 200, 220, 240)"
  by (simp_all add: box_in_zone_def is_point_in_polygon_def rectangle_test_def demo_polygon_def)

lemma demo_survivors: "filter (survives 1) demo_cache = demo_cache"
  by (simp add: survives_def demo_cache_def)

lemma demo_iou:
  "calculate_iou (12, 10, 32, 50) (10, 10, 30, 50) = 9 / 11"
  "calculate_iou (12, 10, 32, 50) (12, 10, 32, 50) = 1"
  by simp_all

lemma demo_final_state:
  "final_state rectangle_test demo_polygon 1 demo_cache =
     \<lparr>counts = [2, 1, 0], timestamps = [0, 1 / 2, 1],
      tracked_persons = [\<lparr>person_id = 0, first_frame = 0, last_frame = 5, last_box = (12, 10, 32, 50)\<rparr>],
      next_person_id = 1\<rparr>"
  unfolding final_state_def demo_survivors
  by (simp add: demo_cache_def frame_result_def frame_count_def demo_in_zone initial_state_def
        track_box.simps new_person_def iou_threshold_def Let_def)

lemma demo_analyze:
  "analyze rectangle_test ''2024-01-01T00:00:00'' ''ann@example.org'' ''z1'' demo_zone 10 demo_cache 1 =
     Inr \<lparr>out_zone_id = ''z1'', out_zone_name = Some ''Entrance'', out_frames_analyzed = 3,
          out_frame_step = 1, out_fps = 10, out_duration = 1, out_avg_count = 1,
          out_min_count = 0, out_peak_count = 2, out_peak_time = 0, out_total_count = 2,
          out_total_persons_passed = 1, out_counts_per_frame = [2, 1, 0],
          out_timestamps = [0, 1 / 2, 1], out_analyzed_at = ''2024-01-01T00:00:00'',
          out_analyzed_by = ''ann@example.org''\<rparr>"
proof -
  have z: "z_polygon demo_zone = demo_polygon" "z_zone_name demo_zone = Some ''Entrance''"
    by (simp_all add: demo_zone_def)
  have ne: "demo_cache \<noteq> []" by (simp add: demo_cache_def)
  show ?thesis
    unfolding analyze_cases z demo_survivors demo_final_state
    using ne by (simp add: make_summary_def z np_mean_def)
qed

lemma demo_analyze_summary:
  "analyze rectangle_test ''2024-01-01T00:00:00'' ''ann@example.org'' ''z1'' demo_zone 10 demo_cache 1 =
     Inr demo_summary"
  by (simp add: demo_analyze demo_summary_def)

section \<open>The summary\<close>

lemma analyze_InrD:
  assumes "analyze ppt now current_user_email zone_id z fps cache frame_step = Inr r"
  shows "r = make_summary now current_user_email zone_id z fps frame_step
               (final_state ppt (z_polygon z) frame_step cache)"
    and "filter (survives frame_step) cache \<noteq> []" and "cache \<noteq> []" and "fps \<noteq> 0"
  using assms by (auto simp: analyze_cases split: if_splits)

lemma summary_counts:
  "out_counts_per_frame (make_summary now u zid z fps frame_step st) = counts st"
  "out_timestamps (make_summary now u zid z fps frame_step st) = timestamps st"
  "out_peak_count (make_summary now u zid z fps frame_step st) = Max (set (counts st))"
  "out_min_count (make_summary now u zid z fps frame_step st) = Min (set (counts st))"
  "out_total_count (make_summary now u zid z fps frame_step st) = Max (set (counts st))"
  "out_avg_count (make_summary now u zid z fps frame_step st) = np_mean (counts st)"
  "out_peak_time (make_summary now u zid z fps frame_step st) =
     timestamps st ! the (np_argmax (counts st))"
  "out_total_persons_passed (make_summary now u zid z fps frame_step st) =
     length (tracked_persons st)"
  "out_frames_analyzed (make_summary now u zid z fps frame_step st) = length (counts st)"
  "out_frame_step (make_summary now u zid z fps frame_step st) = frame_step"
  by (simp_all add: make_summary_def)

section \<open>The claims\<close>

text \<open>Claim C1. When the analysis returns a summary, its list of counts is not empty,
  \<open>avg_count\<close> is the arithmetic mean of the counts, \<open>peak_count\<close> their maximum, \<open>min_count\<close>
  their minimum, \<open>peak_time\<close> the timestamp at the first index where the maximum occurs, and
  \<open>total_count\<close> equals \<open>peak_count\<close>: it is the peak occupancy, not a sum over the frames.\<close>

theorem C1_aggregates:
  assumes "analyze ppt now current_user_email zone_id z fps cache frame_step = Inr r"
  shows "out_counts_per_frame r \<noteq> [] \<and>
         out_avg_count r =
           real_of_int (sum_list (out_counts_per_frame r)) / real (length (out_counts_per_frame r)) \<and>
         out_peak_count r = Max (set (out_counts_per_frame r)) \<and>
         out_min_count r = Min (set (out_counts_per_frame r)) \<and>
         (\<exists>k < length (out_counts_per_frame r).
             out_counts_per_frame r ! k = out_peak_count r \<and>
             (\<forall>j < k. out_counts_per_frame r ! j < out_peak_count r) \<and>
             out_peak_time r = out_timestamps r ! k) \<and>
         out_total_count r = out_peak_count r"
proof -
  let ?st = "final_state ppt (z_polygon z) frame_step cache"
  note d = analyze_InrD[OF assms]
  have ne: "counts ?st \<noteq> []" using d(2) by (simp add: final_state_counts)
  obtain k where k: "np_argmax (counts ?st) = Some k" "k < length (counts ?st)"
      "counts ?st ! k = Max (set (counts ?st))" "\<forall>j < k. counts ?st ! j < Max (set (counts ?st))"
    using np_argmax_first[OF ne] by blast
  have "\<exists>k < length (out_counts_per_frame r).
             out_counts_per_frame r ! k = out_peak_count r \<and>
             (\<forall>j < k. out_counts_per_frame r ! j < out_peak_count r) \<and>
             out_peak_time r = out_timestamps r ! k"
    unfolding d(1) summary_counts using k by (intro exI[of _ k]) simp
  then show ?thesis
    using ne by (simp add: d(1) summary_counts np_mean_def)
qed

theorem C1_aggregates_witness:
  "analyze rectangle_test ''2024-01-01T00:00:00'' ''ann@example.org'' ''z1'' demo_zone 10
     demo_cache 1 = Inr demo_summary \<and>
   out_avg_count demo_summary = 1 \<and> out_peak_count demo_summary = 2 \<and>
   out_min_count demo_summary = 0 \<and> out_peak_time demo_summary = 0 \<and>
   out_total_count demo_summary = out_peak_count demo_summary \<and>
   out_peak_count demo_summary = Max (set (out_counts_per_frame demo_summary))"
  using C1_aggregates[OF demo_analyze_summary] demo_analyze_summary by (simp add: demo_summary_def)

text \<open>Claim C3. The counts of a summary are, frame by frame and in the order of the
  cache, the numbers of boxes of each surviving frame whose centroid
  \<open>((x1 + x2) div 2, (y1 + y2) div 2)\<close> passes the point-in-polygon test: each count is taken
  from its own frame alone.\<close>

theorem C3_frame_counts:
  assumes "analyze ppt now current_user_email zone_id z fps cache frame_step = Inr r"
  shows "out_counts_per_frame r =
           map (\<lambda>det. int (length (filter
                  (\<lambda>(x1, y1, x2, y2).
                      is_point_in_polygon ppt ((x1 + x2) div 2, (y1 + y2) div 2) (z_polygon z))
                  (det_boxes det))))
             (filter (survives frame_step) cache)"
proof -
  have "box_in_zone ppt (z_polygon z) =
      (\<lambda>(x1, y1, x2, y2). is_point_in_polygon ppt ((x1 + x2) div 2, (y1 + y2) div 2) (z_polygon z))"
    by (rule ext) (simp add: box_in_zone_def)
  then have "frame_count ppt (z_polygon z) =
      (\<lambda>det. int (length (filter
                  (\<lambda>(x1, y1, x2, y2).
                      is_point_in_polygon ppt ((x1 + x2) div 2, (y1 + y2) div 2) (z_polygon z))
                  (det_boxes det))))"
    by (intro ext) (simp add: frame_count_def)
  then show ?thesis
    using analyze_InrD(1)[OF assms] by (simp add: summary_counts final_state_counts)
qed

theorem C3_frame_counts_witness:
  "analyze rectangle_test ''2024-01-01T00:00:00'' ''ann@example.org'' ''z1'' demo_zone 10
     demo_cache 1 = Inr demo_summary \<and>
   [2, 1, 0] =
     map (\<lambda>det. int (length (filter
            (\<lambda>(x1, y1, x2, y2).
                is_point_in_polygon rectangle_test ((x1 + x2) div 2, (y1 + y2) div 2)
                  (z_polygon demo_zone))
            (det_boxes det))))
       (filter (survives 1) demo_cache)"
  using C3_frame_counts[OF demo_analyze_summary] demo_analyze_summary by (simp add: demo_summary_def)

text \<open>Claim C5. A summary has as many counts as timestamps, and when the counts are not
  empty \<open>peak_count\<close> is their maximum.\<close>

theorem C5_lengths_and_peak:
  assumes "analyze ppt now current_user_email zone_id z fps cache frame_step = Inr r"
  shows "length (out_counts_per_frame r) = length (out_timestamps r) \<and>
         (out_counts_per_frame r \<noteq> [] \<longrightarrow> out_peak_count r = Max (set (out_counts_per_frame r)))"
  using analyze_InrD(1)[OF assms]
  by (simp add: summary_counts final_state_counts final_state_timestamps)

theorem C5_lengths_and_peak_witness:
  "analyze rectangle_test ''2024-01-01T00:00:00'' ''ann@example.org'' ''z1'' demo_zone 10
     demo_cache 1 = Inr demo_summary \<and>
   length (out_counts_per_frame demo_summary) = length (out_timestamps demo_summary) \<and>
   out_counts_per_frame demo_summary \<noteq> [] \<and>
   out_peak_count demo_summary = Max (set (out_counts_per_frame demo_summary))"
  using C5_lengths_and_peak[OF demo_analyze_summary] demo_analyze_summary by (simp add: demo_summary_def)

section \<open>Intersection over union\<close>

lemma calculate_iou_unfold:
  "calculate_iou a b =
     (if overlap_width a b < 0 \<or> overlap_height a b < 0 then 0
      else if union_area a b > 0
           then real_of_int (overlap_width a b * overlap_height a b) / real_of_int (union_area a b)
           else 0)"
  by (cases a, cases b)
     (simp add: overlap_width_def overlap_height_def union_area_def box_area_def Let_def)

lemma overlap_sym: "overlap_width a b = overlap_width b a" "overlap_height a b = overlap_height b a"
  by (cases a, cases b, simp add: overlap_width_def overlap_height_def max.commute min.commute)+

lemma union_area_sym: "union_area a b = union_area b a"
  by (simp add: union_area_def overlap_sym[of a b] mult.commute add.commute)

lemma calculate_iou_sym: "calculate_iou a b = calculate_iou b a"
  by (simp add: calculate_iou_unfold overlap_sym[of a b] union_area_sym[of a b])

lemma overlap_le_area:
  assumes "valid_box a" and "0 \<le> overlap_width a b" and "0 \<le> overlap_height a b"
  shows "overlap_width a b * overlap_height a b \<le> box_area a"
proof -
  obtain x1 y1 x2 y2 where a: "a = (x1, y1, x2, y2)" by (cases a) auto
  obtain u1 v1 u2 v2 where b: "b = (u1, v1, u2, v2)" by (cases b) auto
  have w: "overlap_width a b \<le> x2 - x1" and h: "overlap_height a b \<le> y2 - y1"
    by (simp_all add: a b overlap_width_def overlap_height_def)
  have "overlap_width a b * overlap_height a b \<le> (x2 - x1) * (y2 - y1)"
    using w h assms(2,3) by (intro mult_mono) auto
  then show ?thesis by (simp add: a box_area_def)
qed

lemma overlap_nonneg:
  "0 \<le> overlap_width a b \<Longrightarrow> 0 \<le> overlap_height a b \<Longrightarrow>
   0 \<le> overlap_width a b * overlap_height a b"
  by simp

lemma calculate_iou_range:
  assumes "valid_box a" and "valid_box b"
  shows "0 \<le> calculate_iou a b \<and> calculate_iou a b \<le> 1"
proof (cases "overlap_width a b < 0 \<or> overlap_height a b < 0")
  case True
  then show ?thesis by (simp add: calculate_iou_unfold)
next
  case False
  then have w: "0 \<le> overlap_width a b" and h: "0 \<le> overlap_height a b" by auto
  define i where "i = overlap_width a b * overlap_height a b"
  have i0: "0 \<le> i" using w h by (simp add: i_def)
  have ia: "i \<le> box_area a" unfolding i_def by (rule overlap_le_area[OF assms(1) w h])
  have "overlap_width b a * overlap_height b a \<le> box_area b"
    using w h by (intro overlap_le_area[OF assms(2)]) (simp_all add: overlap_sym[of b a])
  then have ib: "i \<le> box_area b" by (simp add: i_def overlap_sym[of a b])
  have u: "union_area a b = box_area a + box_area b - i" by (simp add: union_area_def i_def)
  have iu: "i \<le> union_area a b" using ia ib u by linarith
  have eq: "calculate_iou a b =
      (if union_area a b > 0 then real_of_int i / real_of_int (union_area a b) else 0)"
    using False by (simp add: calculate_iou_unfold i_def)
  show ?thesis
  proof (cases "union_area a b > 0")
    case True
    have "real_of_int i \<le> real_of_int (union_area a b)" using iu by linarith
    moreover have "0 \<le> real_of_int i" using i0 by linarith
    moreover have "0 < real_of_int (union_area a b)" using True by linarith
    ultimately show ?thesis using True by (simp add: eq)
  next
    case False
    then show ?thesis by (simp add: eq)
  qed
qed

lemma calculate_iou_no_overlap:
  "overlap_width a b < 0 \<or> overlap_height a b < 0 \<Longrightarrow> calculate_iou a b = 0"
  by (simp add: calculate_iou_unfold)

lemma calculate_iou_union_zero: "union_area a b = 0 \<Longrightarrow> calculate_iou a b = 0"
  by (simp add: calculate_iou_unfold)

lemma calculate_iou_self:
  assumes "valid_box a" and "box_area a > 0"
  shows "calculate_iou a a = 1"
proof -
  obtain x1 y1 x2 y2 where a: "a = (x1, y1, x2, y2)" by (cases a) auto
  have le: "x1 \<le> x2" "y1 \<le> y2" using assms(1) by (simp_all add: a valid_box_def)
  have pos: "(x2 - x1) * (y2 - y1) > 0" using assms(2) by (simp add: a box_area_def)
  then have "real_of_int ((x2 - x1) * (y2 - y1)) \<noteq> 0" by linarith
  then show ?thesis using le pos by (simp add: a)
qed

text \<open>Claim C8. For boxes with \<open>x1 \<le> x2\<close> and \<open>y1 \<le> y2\<close>: the overlap of \<open>a\<close> with \<open>b\<close> is the
  overlap of \<open>b\<close> with \<open>a\<close>; the overlap of a box of positive area with itself is \<open>1\<close>; the
  overlap is \<open>0\<close> when the intersection has negative width or height, and when the area of the
  union is zero; and the overlap always lies between \<open>0\<close> and \<open>1\<close>.\<close>

theorem C8_iou:
  assumes "valid_box a" and "valid_box b"
  shows "calculate_iou a b = calculate_iou b a \<and>
         (box_area a > 0 \<longrightarrow> calculate_iou a a = 1) \<and>
         (overlap_width a b < 0 \<or> overlap_height a b < 0 \<longrightarrow> calculate_iou a b = 0) \<and>
         (union_area a b = 0 \<longrightarrow> calculate_iou a b = 0) \<and>
         0 \<le> calculate_iou a b \<and> calculate_iou a b \<le> 1"
  using calculate_iou_sym[of a b] calculate_iou_self[OF assms(1)] calculate_iou_range[OF assms]
    calculate_iou_no_overlap[of a b] calculate_iou_union_zero[of a b]
  by blast

theorem C8_iou_witness:
  "valid_box (10, 10, 30, 50) \<and> valid_box (12, 10, 32, 50) \<and>
   calculate_iou (10, 10, 30, 50) (12, 10, 32, 50) = calculate_iou (12, 10, 32, 50) (10, 10, 30, 50) \<and>
   box_area (10, 10, 30, 50) > 0 \<and> calculate_iou (10, 10, 30, 50) (10, 10, 30, 50) = 1 \<and>
   calculate_iou (10, 10, 30, 50) (12, 10, 32, 50) = 9 / 11 \<and>
   valid_box (200, 200, 220, 240) \<and> overlap_width (10, 10, 30, 50) (200, 200, 220, 240) < 0 \<and>
   calculate_iou (10, 10, 30, 50) (200, 200, 220, 240) = 0 \<and>
   valid_box (5, 5, 5, 5) \<and> union_area (5, 5, 5, 5) (5, 5, 5, 5) = 0 \<and>
   calculate_iou (5, 5, 5, 5) (5, 5, 5, 5) = 0"
proof -
  have v: "valid_box (10, 10, 30, 50)" "valid_box (12, 10, 32, 50)"
    "valid_box (200, 200, 220, 240)" "valid_box (5, 5, 5, 5)"
    by (simp_all add: valid_box_def)
  have w: "overlap_width (10, 10, 30, 50) (200, 200, 220, 240) < 0"
    by (simp add: overlap_width_def)
  have u: "union_area (5, 5, 5, 5) (5, 5, 5, 5) = 0"
    by (simp add: union_area_def box_area_def overlap_width_def overlap_height_def)
  have p: "box_area (10, 10, 30, 50) > 0" by (simp add: box_area_def)
  have a: "calculate_iou (10, 10, 30, 50) (12, 10, 32, 50) =
      calculate_iou (12, 10, 32, 50) (10, 10, 30, 50)"
    and b: "calculate_iou (10, 10, 30, 50) (10, 10, 30, 50) = 1"
    using C8_iou[OF v(1) v(2)] p by blast+
  have c: "calculate_iou (10, 10, 30, 50) (200, 200, 220, 240) = 0"
    using C8_iou[OF v(1) v(3)] w by blast
  have d: "calculate_iou (5, 5, 5, 5) (5, 5, 5, 5) = 0"
    using C8_iou[OF v(4) v(4)] u by blast
  have e: "calculate_iou (10, 10, 30, 50) (12, 10, 32, 50) = 9 / 11" by simp
  from v w u p a b c d e show ?thesis by blast
qed

section \<open>The stride filter, the clock and the route\<close>

lemma survives_selected:
  "1 \<le> frame_step \<Longrightarrow> survives frame_step det = frame_selected frame_step det"
  by (cases "frame_step = 1") (auto simp: survives_def frame_selected_def)

lemma filter_survives_selected:
  "1 \<le> frame_step \<Longrightarrow> filter (survives frame_step) cache = filter (frame_selected frame_step) cache"
  by (simp add: survives_selected cong: filter_cong)

text \<open>Claim C4 as stated fails on the empty cache: no frame survives the stride filter, and
  the error is \<open>InsufficientData\<close>, not \<open>NoFramesMatched\<close>.\<close>

theorem C4_counterexample:
  "filter (frame_selected 1) ([] :: detection list) = [] \<and>
   analyze rectangle_test ''2024-01-01T00:00:00'' ''ann@example.org'' ''z1'' demo_zone 10 [] 1 =
     Inl InsufficientData"
  by (simp add: analyze_def)

text \<open>Claim C4, amended. For a stride of at least 1 the frames the loop keeps are those with
  \<open>frame_index % frameStride == 0\<close>, taken in the order of the cache: a summary holds one
  timestamp and one count for each of them. On a cache that is not empty the analysis fails
  with \<open>NoFramesMatched\<close> exactly when no frame is kept; a kept frame with no box in the zone
  contributes its count of zero, and when some frame is kept and the frame rate is not zero
  a summary is returned. (On the empty cache the error is \<open>InsufficientData\<close>.)\<close>

theorem C4_stride_filter:
  assumes "1 \<le> frame_step"
  shows "(\<forall>det. survives frame_step det \<longleftrightarrow> frame_selected frame_step det) \<and>
         (\<forall>r. analyze ppt now current_user_email zone_id z fps cache frame_step = Inr r \<longrightarrow>
              out_timestamps r = map det_timestamp (filter (frame_selected frame_step) cache) \<and>
              out_counts_per_frame r =
                map (frame_count ppt (z_polygon z)) (filter (frame_selected frame_step) cache) \<and>
              out_frames_analyzed r = length (filter (frame_selected frame_step) cache)) \<and>
         (cache \<noteq> [] \<longrightarrow>
            (analyze ppt now current_user_email zone_id z fps cache frame_step = Inl NoFramesMatched
             \<longleftrightarrow> filter (frame_selected frame_step) cache = [])) \<and>
         (cache \<noteq> [] \<and> filter (frame_selected frame_step) cache \<noteq> [] \<and> fps \<noteq> 0 \<longrightarrow>
            (\<exists>r. analyze ppt now current_user_email zone_id z fps cache frame_step = Inr r))"
proof -
  note f = filter_survives_selected[OF assms, of cache]
  have 1: "\<forall>det. survives frame_step det \<longleftrightarrow> frame_selected frame_step det"
    using assms by (simp add: survives_selected)
  have 2: "\<forall>r. analyze ppt now current_user_email zone_id z fps cache frame_step = Inr r \<longrightarrow>
              out_timestamps r = map det_timestamp (filter (frame_selected frame_step) cache) \<and>
              out_counts_per_frame r =
                map (frame_count ppt (z_polygon z)) (filter (frame_selected frame_step) cache) \<and>
              out_frames_analyzed r = length (filter (frame_selected frame_step) cache)"
  proof (intro allI impI)
    fix r
    assume "analyze ppt now current_user_email zone_id z fps cache frame_step = Inr r"
    from analyze_InrD(1)[OF this]
    show "out_timestamps r = map det_timestamp (filter (frame_selected frame_step) cache) \<and>
              out_counts_per_frame r =
                map (frame_count ppt (z_polygon z)) (filter (frame_selected frame_step) cache) \<and>
              out_frames_analyzed r = length (filter (frame_selected frame_step) cache)"
      by (simp add: summary_counts final_state_counts final_state_timestamps f)
  qed
  have 3: "cache \<noteq> [] \<longrightarrow>
            (analyze ppt now current_user_email zone_id z fps cache frame_step = Inl NoFramesMatched
             \<longleftrightarrow> filter (frame_selected frame_step) cache = [])"
    by (simp add: analyze_cases f)
  have 4: "cache \<noteq> [] \<and> filter (frame_selected frame_step) cache \<noteq> [] \<and> fps \<noteq> 0 \<longrightarrow>
            (\<exists>r. analyze ppt now current_user_email zone_id z fps cache frame_step = Inr r)"
    by (simp add: analyze_cases f)
  from 1 2 3 4 show ?thesis by blast
qed

lemma demo_selected: "filter (frame_selected 1) demo_cache = demo_cache"
  by (simp add: frame_selected_def demo_cache_def)

lemma demo_selected_1000: "filter (frame_selected 1000) (tl demo_cache) = []"
  by (simp add: frame_selected_def demo_cache_def)

theorem C4_stride_filter_witness:
  "(1 :: int) \<le> 1 \<and> demo_cache \<noteq> [] \<and> filter (frame_selected 1) demo_cache \<noteq> [] \<and>
   (10 :: real) \<noteq> 0 \<and>
   analyze rectangle_test ''2024-01-01T00:00:00'' ''ann@example.org'' ''z1'' demo_zone 10
     demo_cache 1 = Inr demo_summary \<and>
   out_frames_analyzed demo_summary = length (filter (frame_selected 1) demo_cache) \<and>
   (1 :: int) \<le> 1000 \<and> tl demo_cache \<noteq> [] \<and>
   analyze rectangle_test ''2024-01-01T00:00:00'' ''ann@example.org'' ''z1'' demo_zone 10
     (tl demo_cache) 1000 = Inl NoFramesMatched"
proof -
  have ne: "demo_cache \<noteq> []" "tl demo_cache \<noteq> []" by (simp_all add: demo_cache_def)
  have a: "out_frames_analyzed demo_summary = length (filter (frame_selected 1) demo_cache)"
    using C4_stride_filter[of 1 rectangle_test "''2024-01-01T00:00:00''" "''ann@example.org''"
        "''z1''" demo_zone 10 demo_cache] demo_analyze_summary
    by simp
  have b: "analyze rectangle_test ''2024-01-01T00:00:00'' ''ann@example.org'' ''z1'' demo_zone 10
     (tl demo_cache) 1000 = Inl NoFramesMatched"
    using C4_stride_filter[of 1000 rectangle_test "''2024-01-01T00:00:00''" "''ann@example.org''"
        "''z1''" demo_zone 10 "tl demo_cache"] ne(2) demo_selected_1000
    by simp
  show ?thesis using ne a b demo_analyze_summary by (simp add: demo_selected)
qed

lemma analyze_stamp:
  "analyze ppt now2 current_user_email zone_id z fps cache frame_step =
     map_sum (\<lambda>e. e) (\<lambda>r. r\<lparr>out_analyzed_at := now2\<rparr>)
       (analyze ppt now1 current_user_email zone_id z fps cache frame_step)"
  by (simp add: analyze_cases make_summary_def)

text \<open>Claim C6 as stated fails: the stamp \<open>analyzed_at\<close> is the reading of
  \<open>datetime.utcnow()\<close> taken inside the route, so two runs on the same cache, polygon and stride
  at different times return different summaries.\<close>

theorem C6_counterexample:
  "analyze rectangle_test ''2024-01-01T00:00:00'' ''ann@example.org'' ''z1'' demo_zone 10
     demo_cache 1 \<noteq>
   analyze rectangle_test ''2024-01-01T00:00:07'' ''ann@example.org'' ''z1'' demo_zone 10
     demo_cache 1"
proof -
  have "analyze rectangle_test ''2024-01-01T00:00:07'' ''ann@example.org'' ''z1'' demo_zone 10
     demo_cache 1 = Inr (demo_summary\<lparr>out_analyzed_at := ''2024-01-01T00:00:07''\<rparr>)"
    by (subst analyze_stamp[where ?now1.0 = "''2024-01-01T00:00:00''"])
       (simp add: demo_analyze_summary)
  then show ?thesis by (simp add: demo_analyze_summary demo_summary_def)
qed

text \<open>Claim C6, amended. The result of the analysis depends on the clock through the field
  \<open>analyzed_at\<close> alone: the result at one reading of the clock is the result at any other
  reading with the stamp replaced, for the analysis and for the response of the route. Errors
  do not depend on the clock, and there is no other hidden input.\<close>

theorem C6_deterministic_but_stamp:
  "analyze ppt now2 current_user_email zone_id z fps cache frame_step =
     map_sum (\<lambda>e. e) (\<lambda>r. r\<lparr>out_analyzed_at := now2\<rparr>)
       (analyze ppt now1 current_user_email zone_id z fps cache frame_step) \<and>
   fst (analyze_zone ppt e2 current_user_email fd zone_id_opt frame_step0) =
     map_sum (\<lambda>e. e) (\<lambda>r. r\<lparr>out_analyzed_at := utcnow_summary e2\<rparr>)
       (fst (analyze_zone ppt e1 current_user_email fd zone_id_opt frame_step0))"
proof -
  have "fst (analyze_zone ppt e2 current_user_email fd zone_id_opt frame_step0) =
     map_sum (\<lambda>e. e) (\<lambda>r. r\<lparr>out_analyzed_at := utcnow_summary e2\<rparr>)
       (fst (analyze_zone ppt e1 current_user_email fd zone_id_opt frame_step0))"
    unfolding analyze_zone_def Let_def
    by (subst analyze_stamp[where ?now1.0 = "utcnow_summary e1" and ?now2.0 = "utcnow_summary e2"])
       (auto split: option.splits sum.splits)
  then show ?thesis using analyze_stamp by blast
qed

theorem C6_deterministic_but_stamp_witness:
  "analyze rectangle_test ''2024-01-01T00:00:07'' ''ann@example.org'' ''z1'' demo_zone 10
     demo_cache 1 = Inr (demo_summary\<lparr>out_analyzed_at := ''2024-01-01T00:00:07''\<rparr>)"
  using C6_deterministic_but_stamp[of rectangle_test "''2024-01-01T00:00:07''" "''ann@example.org''"
      "''z1''" demo_zone 10 demo_cache 1 "''2024-01-01T00:00:00''"]
  by (simp add: demo_analyze_summary)

lemma analyze_zone_empty_cache:
  assumes "f_detections_cache fd = []"
  shows "snd (analyze_zone ppt e current_user_email fd zone_id_opt frame_step0) = fd"
    and "\<forall>r. fst (analyze_zone ppt e current_user_email fd zone_id_opt frame_step0) \<noteq> Inr r"
  using assms
  by (auto simp: analyze_zone_def Let_def analyze_def split: option.splits)

lemma analyze_zone_empty_cache_found:
  assumes "f_detections_cache fd = []" and "zone_id \<noteq> []"
    and "find (\<lambda>z. z_zone_id z = zone_id) (f_zones fd) \<noteq> None"
  shows "analyze_zone ppt e current_user_email fd (Some zone_id) frame_step0 =
           (Inl InsufficientData, fd)"
  using assms
  by (auto simp: analyze_zone_def Let_def analyze_def split: option.splits)

text \<open>Claim C9. On a feed with an empty detection cache the analysis fails with
  \<open>InsufficientData\<close>, whatever the polygon test, the polygon and the stride are; the route
  returns no summary and leaves the feed document as it was, and when the request names a
  zone of the feed its response is \<open>InsufficientData\<close>.\<close>

theorem C9_empty_cache:
  assumes "f_detections_cache fd = []"
  shows "analyze ppt now current_user_email zone_id z fps (f_detections_cache fd) frame_step =
           Inl InsufficientData \<and>
         snd (analyze_zone ppt e current_user_email fd zone_id_opt frame_step0) = fd \<and>
         (\<forall>r. fst (analyze_zone ppt e current_user_email fd zone_id_opt frame_step0) \<noteq> Inr r) \<and>
         (zone_id \<noteq> [] \<and> find (\<lambda>z. z_zone_id z = zone_id) (f_zones fd) \<noteq> None \<longrightarrow>
            analyze_zone ppt e current_user_email fd (Some zone_id) frame_step0 =
              (Inl InsufficientData, fd))"
  using analyze_zone_empty_cache[OF assms] analyze_zone_empty_cache_found[OF assms] assms
  by (simp add: analyze_def)

theorem C9_empty_cache_witness:
  "f_detections_cache (demo_feed\<lparr>f_detections_cache := []\<rparr>) = [] \<and>
   ''z1'' \<noteq> [] \<and>
   find (\<lambda>z. z_zone_id z = ''z1'') (f_zones (demo_feed\<lparr>f_detections_cache := []\<rparr>)) \<noteq> None \<and>
   analyze_zone rectangle_test demo_env ''ann@example.org'' (demo_feed\<lparr>f_detections_cache := []\<rparr>)
     (Some ''z1'') 1 = (Inl InsufficientData, demo_feed\<lparr>f_detections_cache := []\<rparr>)"
proof -
  have f: "find (\<lambda>z. z_zone_id z = ''z1'') (f_zones (demo_feed\<lparr>f_detections_cache := []\<rparr>)) \<noteq> None"
    by (simp add: demo_feed_def demo_zone_def)
  show ?thesis
    using C9_empty_cache[of "demo_feed\<lparr>f_detections_cache := []\<rparr>" rectangle_test
        "''2024-01-01T00:00:00''" "''ann@example.org''" "''z1''" demo_zone 10 1 demo_env
        "Some ''z1''" 1] f
    by simp
qed

text \<open>Claim C10. A requested \<open>frame_step\<close> below 1 is not rejected: the route answers, and
  stores, exactly what it does for \<open>frame_step = 1\<close>, and a summary it returns records the
  stride 1.\<close>

theorem C10_frame_step_coerced:
  assumes "frame_step0 < 1"
  shows "analyze_zone ppt e current_user_email fd zone_id_opt frame_step0 =
           analyze_zone ppt e current_user_email fd zone_id_opt 1 \<and>
         (\<forall>r. fst (analyze_zone ppt e current_user_email fd zone_id_opt frame_step0) = Inr r \<longrightarrow>
              out_frame_step r = 1)"
proof -
  have eq: "analyze_zone ppt e current_user_email fd zone_id_opt frame_step0 =
           analyze_zone ppt e current_user_email fd zone_id_opt 1"
    using assms by (simp add: analyze_zone_def)
  have "\<forall>r. fst (analyze_zone ppt e current_user_email fd zone_id_opt 1) = Inr r \<longrightarrow>
              out_frame_step r = 1"
    by (auto simp: analyze_zone_def Let_def analyze_cases make_summary_def
          split: option.splits if_splits)
  then show ?thesis using eq by simp
qed

lemma demo_analyze_zone:
  "fst (analyze_zone rectangle_test demo_env ''ann@example.org'' demo_feed (Some ''z1'') 1) =
     Inr demo_summary"
proof -
  have f: "find (\<lambda>z. z_zone_id z = ''z1'') (f_zones demo_feed) = Some demo_zone"
    by (simp add: demo_feed_def demo_zone_def)
  have c: "f_detections_cache demo_feed = demo_cache" "f_summary_fps demo_feed = None"
    "utcnow_summary demo_env = ''2024-01-01T00:00:00''"
    by (simp_all add: demo_feed_def demo_env_def)
  show ?thesis
    by (simp add: analyze_zone_def f c demo_analyze_summary)
qed

theorem C10_frame_step_coerced_witness:
  "(-3 :: int) < 1 \<and>
   analyze_zone rectangle_test demo_env ''ann@example.org'' demo_feed (Some ''z1'') (-3) =
     analyze_zone rectangle_test demo_env ''ann@example.org'' demo_feed (Some ''z1'') 1 \<and>
   fst (analyze_zone rectangle_test demo_env ''ann@example.org'' demo_feed (Some ''z1'') (-3)) =
     Inr demo_summary \<and>
   out_frame_step demo_summary = 1"
  using C10_frame_step_coerced[of "-3" rectangle_test demo_env "''ann@example.org''" demo_feed
      "Some ''z1''"] demo_analyze_zone
  by simp

section \<open>The tracker\<close>

lemma frame_count_zero:
  "frame_count ppt polygon det = 0 \<longleftrightarrow>
     (\<forall>box \<in> set (det_boxes det). \<not> box_in_zone ppt polygon box)"
  by (simp add: frame_count_def filter_empty_conv)

lemma demo_undercount:
  "int (out_total_persons_passed demo_summary) < Max (set (out_counts_per_frame demo_summary))"
  by (simp add: demo_summary_def)

text \<open>Claim C7. In a summary \<open>total_persons_passed\<close> is not negative, and it is zero exactly
  when no box of a surviving frame has its centroid in the polygon. It is not bounded below
  by the largest count: on the concrete feed two overlapping boxes of one frame are matched
  to the same person, so one person is counted where the peak occupancy is two.\<close>

theorem C7_total_persons:
  assumes "analyze ppt now current_user_email zone_id z fps cache frame_step = Inr r"
  shows "0 \<le> out_total_persons_passed r \<and>
         (out_total_persons_passed r = 0 \<longleftrightarrow>
            (\<forall>det \<in> set cache. survives frame_step det \<longrightarrow>
               (\<forall>box \<in> set (det_boxes det). \<not> box_in_zone ppt (z_polygon z) box))) \<and>
         \<not> (\<forall>ppt' now' user' zone_id' z' fps' cache' frame_step' r'.
              analyze ppt' now' user' zone_id' z' fps' cache' frame_step' = Inr r' \<longrightarrow>
              Max (set (out_counts_per_frame r')) \<le> int (out_total_persons_passed r'))"
proof -
  have "out_total_persons_passed r = 0 \<longleftrightarrow>
      tracked_persons (final_state ppt (z_polygon z) frame_step cache) = []"
    using analyze_InrD(1)[OF assms] by (simp add: summary_counts)
  then have iff: "out_total_persons_passed r = 0 \<longleftrightarrow>
            (\<forall>det \<in> set cache. survives frame_step det \<longrightarrow>
               (\<forall>box \<in> set (det_boxes det). \<not> box_in_zone ppt (z_polygon z) box))"
    by (simp add: final_state_empty frame_count_zero)
  have "\<not> (\<forall>ppt' now' user' zone_id' z' fps' cache' frame_step' r'.
              analyze ppt' now' user' zone_id' z' fps' cache' frame_step' = Inr r' \<longrightarrow>
              Max (set (out_counts_per_frame r')) \<le> int (out_total_persons_passed r'))"
    using demo_analyze_summary demo_undercount by (metis not_le)
  with iff show ?thesis by simp
qed

lemma demo_outside:
  "analyze rectangle_test ''2024-01-01T00:00:00'' ''ann@example.org'' ''z1'' demo_zone 10
     (drop 2 demo_cache) 1 =
   Inr \<lparr>out_zone_id = ''z1'', out_zone_name = Some ''Entrance'', out_frames_analyzed = 1,
        out_frame_step = 1, out_fps = 10, out_duration = 1, out_avg_count = 0,
        out_min_count = 0, out_peak_count = 0, out_peak_time = 1, out_total_count = 0,
        out_total_persons_passed = 0, out_counts_per_frame = [0],
        out_timestamps = [1], out_analyzed_at = ''2024-01-01T00:00:00'',
        out_analyzed_by = ''ann@example.org''\<rparr>"
proof -
  have z: "z_polygon demo_zone = demo_polygon" "z_zone_name demo_zone = Some ''Entrance''"
    by (simp_all add: demo_zone_def)
  have d: "drop 2 demo_cache =
      [\<lparr>det_timestamp = 1, det_frame = 10, det_boxes = [(200, 200, 220, 240)]\<rparr>]"
    by (simp add: demo_cache_def)
  have s: "filter (survives 1)
      [\<lparr>det_timestamp = 1, det_frame = 10, det_boxes = [(200, 200, 220, 240)]\<rparr>] =
      [\<lparr>det_timestamp = 1, det_frame = 10, det_boxes = [(200, 200, 220, 240)]\<rparr>]"
    by (simp add: survives_def)
  have f: "final_state rectangle_test demo_polygon 1
      [\<lparr>det_timestamp = 1, det_frame = 10, det_boxes = [(200, 200, 220, 240)]\<rparr>] =
      \<lparr>counts = [0], timestamps = [1], tracked_persons = [], next_person_id = 0\<rparr>"
    unfolding final_state_def s
    by (simp add: frame_result_def frame_count_def demo_in_zone initial_state_def)
  show ?thesis
    unfolding d analyze_cases z s f
    by (simp add: make_summary_def z np_mean_def)
qed

theorem C7_total_persons_witness:
  "analyze rectangle_test ''2024-01-01T00:00:00'' ''ann@example.org'' ''z1'' demo_zone 10
     demo_cache 1 = Inr demo_summary \<and>
   out_total_persons_passed demo_summary = 1 \<and>
   (\<exists>det \<in> set demo_cache. survives 1 det \<and>
        (\<exists>box \<in> set (det_boxes det). box_in_zone rectangle_test (z_polygon demo_zone) box)) \<and>
   (\<exists>r. analyze rectangle_test ''2024-01-01T00:00:00'' ''ann@example.org'' ''z1'' demo_zone 10
          (drop 2 demo_cache) 1 = Inr r \<and> out_total_persons_passed r = 0) \<and>
   \<not> (\<exists>det \<in> set (drop 2 demo_cache). survives 1 det \<and>
        (\<exists>box \<in> set (det_boxes det). box_in_zone rectangle_test (z_polygon demo_zone) box))"
proof -
  have a: "\<exists>det \<in> set demo_cache. survives 1 det \<and>
        (\<exists>box \<in> set (det_boxes det). box_in_zone rectangle_test (z_polygon demo_zone) box)"
    using C7_total_persons[OF demo_analyze_summary] by (simp add: demo_summary_def)
  have b: "\<not> (\<exists>det \<in> set (drop 2 demo_cache). survives 1 det \<and>
        (\<exists>box \<in> set (det_boxes det). box_in_zone rectangle_test (z_polygon demo_zone) box))"
    using C7_total_persons[OF demo_outside] by simp
  have c: "\<exists>r. analyze rectangle_test ''2024-01-01T00:00:00'' ''ann@example.org'' ''z1'' demo_zone 10
          (drop 2 demo_cache) 1 = Inr r \<and> out_total_persons_passed r = 0"
    using demo_outside by simp
  have d: "out_total_persons_passed demo_summary = 1" by (simp add: demo_summary_def)
  from a b c d demo_analyze_summary show ?thesis by blast
qed

lemma no_candidate_iff:
  "no_candidate box frame_idx persons \<longleftrightarrow>
     \<not> (\<exists>p \<in> set persons. is_candidate frame_idx p \<and>
            calculate_iou box (last_box p) > iou_threshold)"
proof
  assume n: "no_candidate box frame_idx persons"
  show "\<not> (\<exists>p \<in> set persons. is_candidate frame_idx p \<and>
            calculate_iou box (last_box p) > iou_threshold)"
  proof
    assume "\<exists>p \<in> set persons. is_candidate frame_idx p \<and>
            calculate_iou box (last_box p) > iou_threshold"
    then obtain j where "j < length persons" "is_candidate frame_idx (persons ! j)"
        "calculate_iou box (last_box (persons ! j)) > iou_threshold"
      by (auto simp: in_set_conv_nth)
    with n show False by (auto simp: no_candidate_def)
  qed
next
  assume "\<not> (\<exists>p \<in> set persons. is_candidate frame_idx p \<and>
            calculate_iou box (last_box p) > iou_threshold)"
  then have "\<forall>p \<in> set persons. is_candidate frame_idx p \<longrightarrow>
      calculate_iou box (last_box p) \<le> iou_threshold"
    by (auto simp: not_less)
  then show "no_candidate box frame_idx persons"
    unfolding no_candidate_def using nth_mem by blast
qed

lemma track_box_new:
  assumes "\<not> (\<exists>p \<in> set persons. is_candidate frame_idx p \<and>
                calculate_iou box (last_box p) > iou_threshold)"
  shows "track_box frame_idx (persons, next_id) box =
           (persons @ [\<lparr>person_id = next_id, first_frame = frame_idx, last_frame = frame_idx,
                         last_box = box\<rparr>], next_id + 1)"
proof -
  have "no_candidate box frame_idx persons" using assms by (simp add: no_candidate_iff)
  then show ?thesis
    using track_box_cases[of box frame_idx persons next_id] no_candidate_not_best
    by (auto simp: new_person_def)
qed

lemma track_box_match:
  assumes inv: "tracker_inv (persons, next_id)"
    and ex: "\<exists>p \<in> set persons. is_candidate frame_idx p \<and>
                calculate_iou box (last_box p) > iou_threshold"
  shows "\<exists>k < length persons.
           is_candidate frame_idx (persons ! k) \<and>
           calculate_iou box (last_box (persons ! k)) > iou_threshold \<and>
           (\<forall>j < length persons. is_candidate frame_idx (persons ! j) \<longrightarrow>
               calculate_iou box (last_box (persons ! j)) \<le>
               calculate_iou box (last_box (persons ! k))) \<and>
           (\<forall>j < k. is_candidate frame_idx (persons ! j) \<longrightarrow>
               calculate_iou box (last_box (persons ! j)) <
               calculate_iou box (last_box (persons ! k))) \<and>
           track_box frame_idx (persons, next_id) box =
             (persons[k := (persons ! k)\<lparr>last_box := box, last_frame := frame_idx\<rparr>], next_id)"
proof -
  have "\<not> no_candidate box frame_idx persons" using ex by (simp add: no_candidate_iff)
  then obtain k where best: "best_candidate box frame_idx persons k"
    and tb: "track_box frame_idx (persons, next_id) box =
        (update_person (person_id (persons ! k)) box frame_idx persons, next_id)"
    using track_box_cases[of box frame_idx persons next_id] by blast
  have k: "k < length persons" using best by (simp add: best_candidate_def)
  have "\<forall>j < k. person_id (persons ! j) \<noteq> person_id (persons ! k)"
    using tracker_inv_nth[OF inv] k by auto
  then have "update_person (person_id (persons ! k)) box frame_idx persons =
      persons[k := (persons ! k)\<lparr>last_box := box, last_frame := frame_idx\<rparr>]"
    by (rule update_person_nth[OF k])
  with tb best show ?thesis
    unfolding best_candidate_def by (intro exI[of _ k]) simp
qed

lemma tracker_inv_ids_below:
  assumes "tracker_inv (persons, next_id)"
  shows "\<forall>p \<in> set persons. person_id p < next_id"
proof
  fix p assume "p \<in> set persons"
  then obtain j where j: "j < length persons" "persons ! j = p" by (auto simp: in_set_conv_nth)
  have "person_id p = int j" using tracker_inv_nth[OF assms j(1)] j(2) by simp
  moreover have "next_id = int (length persons)" using assms by (simp add: tracker_inv_def)
  ultimately show "person_id p < next_id" using j(1) by simp
qed

lemma process_frame_tracker:
  assumes "survives frame_step det" and "fps \<noteq> 0"
  shows "\<exists>st'. process_frame ppt polygon fps frame_step st det = Inr st' \<and>
           (tracked_persons st', next_person_id st') =
             foldl (track_box (det_frame det)) (tracked_persons st, next_person_id st)
               (filter (box_in_zone ppt polygon) (det_boxes det))"
  using assms by (simp add: process_frame_run frame_result_def Let_def)

lemma analyze_tracker:
  assumes "analyze ppt now current_user_email zone_id z fps cache frame_step = Inr r"
  shows "\<exists>st. run_frames ppt (z_polygon z) fps frame_step initial_state cache = Inr st \<and>
           tracker_inv (tracked_persons st, next_person_id st) \<and>
           out_total_persons_passed r = length (tracked_persons st) \<and>
           int (out_total_persons_passed r) = next_person_id st"
proof -
  let ?st = "final_state ppt (z_polygon z) frame_step cache"
  note d = analyze_InrD[OF assms]
  have run: "run_frames ppt (z_polygon z) fps frame_step initial_state cache = Inr ?st"
    using d(4) by (simp add: run_frames_run final_state_def)
  have inv: "tracker_inv (tracked_persons ?st, next_person_id ?st)"
    using final_state_inv[of ppt "z_polygon z" frame_step cache] by (simp add: state_inv_def)
  then have "next_person_id ?st = int (length (tracked_persons ?st))"
    by (simp add: tracker_inv_def)
  with run inv show ?thesis by (simp add: d(1) summary_counts)
qed

text \<open>Claim C2. While the ids handed out are \<open>0, 1, ...\<close> in list order and \<open>next_person_id\<close>
  is their number (true at the start and kept by every step), one box of frame \<open>frame_idx\<close>
  is tracked as follows. The candidates are the persons last seen at most 10 frame indices
  back. If some candidate overlaps the box by more than the threshold 0.3, the first
  candidate of the largest overlap is matched, and exactly that person gets the box as
  \<open>last_box\<close> and \<open>frame_idx\<close> as \<open>last_frame\<close>; otherwise a new person is appended whose id is
  \<open>next_person_id\<close>, larger than every id in use, and \<open>next_person_id\<close> grows by one. A frame
  that is not skipped tracks its boxes in the zone in their order of arrival. In a summary
  \<open>total_persons_passed\<close> is the number of persons in the list and equals \<open>next_person_id\<close>,
  the number of persons created.\<close>

theorem C2_tracking:
  "(tracker_inv (persons, next_id) \<longrightarrow>
      (if \<exists>p \<in> set persons. is_candidate frame_idx p \<and>
              calculate_iou box (last_box p) > iou_threshold
       then \<exists>k < length persons.
              is_candidate frame_idx (persons ! k) \<and>
              calculate_iou box (last_box (persons ! k)) > iou_threshold \<and>
              (\<forall>j < length persons. is_candidate frame_idx (persons ! j) \<longrightarrow>
                  calculate_iou box (last_box (persons ! j)) \<le>
                  calculate_iou box (last_box (persons ! k))) \<and>
              (\<forall>j < k. is_candidate frame_idx (persons ! j) \<longrightarrow>
                  calculate_iou box (last_box (persons ! j)) <
                  calculate_iou box (last_box (persons ! k))) \<and>
              track_box frame_idx (persons, next_id) box =
                (persons[k := (persons ! k)\<lparr>last_box := box, last_frame := frame_idx\<rparr>], next_id)
       else track_box frame_idx (persons, next_id) box =
              (persons @ [\<lparr>person_id = next_id, first_frame = frame_idx,
                            last_frame = frame_idx, last_box = box\<rparr>], next_id + 1) \<and>
            (\<forall>p \<in> set persons. person_id p < next_id)) \<and>
      tracker_inv (track_box frame_idx (persons, next_id) box)) \<and>
   (survives frame_step det \<and> fps \<noteq> 0 \<longrightarrow>
      (\<exists>st'. process_frame ppt polygon fps frame_step st det = Inr st' \<and>
         (tracked_persons st', next_person_id st') =
           foldl (track_box (det_frame det)) (tracked_persons st, next_person_id st)
             (filter (box_in_zone ppt polygon) (det_boxes det)))) \<and>
   tracker_inv (tracked_persons initial_state, next_person_id initial_state) \<and>
   (analyze ppt now current_user_email zone_id z fps cache frame_step = Inr r \<longrightarrow>
      (\<exists>st. run_frames ppt (z_polygon z) fps frame_step initial_state cache = Inr st \<and>
         tracker_inv (tracked_persons st, next_person_id st) \<and>
         out_total_persons_passed r = length (tracked_persons st) \<and>
         int (out_total_persons_passed r) = next_person_id st))"
proof (intro conjI impI)
  assume inv: "tracker_inv (persons, next_id)"
  show "if \<exists>p \<in> set persons. is_candidate frame_idx p \<and>
              calculate_iou box (last_box p) > iou_threshold
       then \<exists>k < length persons.
              is_candidate frame_idx (persons ! k) \<and>
              calculate_iou box (last_box (persons ! k)) > iou_threshold \<and>
              (\<forall>j < length persons. is_candidate frame_idx (persons ! j) \<longrightarrow>
                  calculate_iou box (last_box (persons ! j)) \<le>
                  calculate_iou box (last_box (persons ! k))) \<and>
              (\<forall>j < k. is_candidate frame_idx (persons ! j) \<longrightarrow>
                  calculate_iou box (last_box (persons ! j)) <
                  calculate_iou box (last_box (persons ! k))) \<and>
              track_box frame_idx (persons, next_id) box =
                (persons[k := (persons ! k)\<lparr>last_box := box, last_frame := frame_idx\<rparr>], next_id)
       else track_box frame_idx (persons, next_id) box =
              (persons @ [\<lparr>person_id = next_id, first_frame = frame_idx,
                            last_frame = frame_idx, last_box = box\<rparr>], next_id + 1) \<and>
            (\<forall>p \<in> set persons. person_id p < next_id)"
  proof (cases "\<exists>p \<in> set persons. is_candidate frame_idx p \<and>
              calculate_iou box (last_box p) > iou_threshold")
    case True
    then show ?thesis using track_box_match[OF inv True] by (simp only: if_True)
  next
    case False
    then show ?thesis
      using track_box_new[OF False, of next_id] tracker_inv_ids_below[OF inv]
      by (simp only: if_False)
  qed
  show "tracker_inv (track_box frame_idx (persons, next_id) box)"
    by (rule track_box_inv[OF inv])
next
  assume "survives frame_step det \<and> fps \<noteq> 0"
  then show "\<exists>st'. process_frame ppt polygon fps frame_step st det = Inr st' \<and>
         (tracked_persons st', next_person_id st') =
           foldl (track_box (det_frame det)) (tracked_persons st, next_person_id st)
             (filter (box_in_zone ppt polygon) (det_boxes det))"
    using process_frame_tracker by blast
next
  show "tracker_inv (tracked_persons initial_state, next_person_id initial_state)"
    by (simp add: initial_state_def tracker_inv_def)
next
  assume "analyze ppt now current_user_email zone_id z fps cache frame_step = Inr r"
  then show "\<exists>st. run_frames ppt (z_polygon z) fps frame_step initial_state cache = Inr st \<and>
         tracker_inv (tracked_persons st, next_person_id st) \<and>
         out_total_persons_passed r = length (tracked_persons st) \<and>
         int (out_total_persons_passed r) = next_person_id st"
    by (rule analyze_tracker)
qed

theorem C2_tracking_witness:
  "tracker_inv ([demo_person], 1) \<and>
   (\<exists>p \<in> set [demo_person]. is_candidate 5 p \<and>
        calculate_iou (12, 10, 32, 50) (last_box p) > iou_threshold) \<and>
   track_box 5 ([demo_person], 1) (12, 10, 32, 50) =
     ([demo_person\<lparr>last_box := (12, 10, 32, 50), last_frame := 5\<rparr>], 1) \<and>
   \<not> (\<exists>p \<in> set [demo_person]. is_candidate 20 p \<and>
        calculate_iou (12, 10, 32, 50) (last_box p) > iou_threshold) \<and>
   track_box 20 ([demo_person], 1) (12, 10, 32, 50) =
     ([demo_person,
       \<lparr>person_id = 1, first_frame = 20, last_frame = 20, last_box = (12, 10, 32, 50)\<rparr>], 2) \<and>
   survives 1 (hd demo_cache) \<and> (10 :: real) \<noteq> 0 \<and>
   (\<exists>st'. process_frame rectangle_test demo_polygon 10 1 initial_state (hd demo_cache) = Inr st' \<and>
      tracked_persons st' =
        [\<lparr>person_id = 0, first_frame = 0, last_frame = 0, last_box = (12, 10, 32, 50)\<rparr>] \<and>
      next_person_id st' = 1) \<and>
   analyze rectangle_test ''2024-01-01T00:00:00'' ''ann@example.org'' ''z1'' demo_zone 10
     demo_cache 1 = Inr demo_summary \<and>
   (\<exists>st. run_frames rectangle_test (z_polygon demo_zone) 10 1 initial_state demo_cache = Inr st \<and>
      next_person_id st = 1 \<and> length (tracked_persons st) = 1)"
proof -
  have inv: "tracker_inv ([demo_person], 1)"
    by (simp add: tracker_inv_def demo_person_def)
  have near: "\<exists>p \<in> set [demo_person]. is_candidate 5 p \<and>
        calculate_iou (12, 10, 32, 50) (last_box p) > iou_threshold"
    by (simp add: is_candidate_def demo_person_def iou_threshold_def)
  have far: "\<not> (\<exists>p \<in> set [demo_person]. is_candidate 20 p \<and>
        calculate_iou (12, 10, 32, 50) (last_box p) > iou_threshold)"
    by (simp add: is_candidate_def demo_person_def)
  have a: "track_box 5 ([demo_person], 1) (12, 10, 32, 50) =
     ([demo_person\<lparr>last_box := (12, 10, 32, 50), last_frame := 5\<rparr>], 1)"
    using C2_tracking[where persons = "[demo_person]" and next_id = 1 and frame_idx = 5
        and box = "(12, 10, 32, 50)", THEN conjunct1] inv near
    by (simp only: if_True) simp
  have b: "track_box 20 ([demo_person], 1) (12, 10, 32, 50) =
     ([demo_person,
       \<lparr>person_id = 1, first_frame = 20, last_frame = 20, last_box = (12, 10, 32, 50)\<rparr>], 2)"
    using C2_tracking[where persons = "[demo_person]" and next_id = 1 and frame_idx = 20
        and box = "(12, 10, 32, 50)", THEN conjunct1] inv far
    by (simp only: if_False) simp
  have s: "survives 1 (hd demo_cache)" by (simp add: survives_def)
  have t: "foldl (track_box (det_frame (hd demo_cache)))
             (tracked_persons initial_state, next_person_id initial_state)
             (filter (box_in_zone rectangle_test demo_polygon) (det_boxes (hd demo_cache))) =
           ([\<lparr>person_id = 0, first_frame = 0, last_frame = 0, last_box = (12, 10, 32, 50)\<rparr>], 1)"
    by (simp add: demo_cache_def demo_in_zone initial_state_def track_box.simps new_person_def
          iou_threshold_def)
  have f: "\<exists>st'. process_frame rectangle_test demo_polygon 10 1 initial_state (hd demo_cache) = Inr st' \<and>
      tracked_persons st' =
        [\<lparr>person_id = 0, first_frame = 0, last_frame = 0, last_box = (12, 10, 32, 50)\<rparr>] \<and>
      next_person_id st' = 1"
    using C2_tracking[where frame_step = 1 and det = "hd demo_cache" and fps = 10
        and ppt = rectangle_test and polygon = demo_polygon and st = initial_state,
        THEN conjunct2, THEN conjunct1] s
    unfolding t by auto
  have c: "\<exists>st. run_frames rectangle_test (z_polygon demo_zone) 10 1 initial_state demo_cache = Inr st \<and>
      next_person_id st = 1 \<and> length (tracked_persons st) = 1"
    using C2_tracking[where ppt = rectangle_test and now = "''2024-01-01T00:00:00''"
        and current_user_email = "''ann@example.org''" and zone_id = "''z1''" and z = demo_zone
        and fps = 10 and cache = demo_cache and frame_step = 1 and r = demo_summary,
        THEN conjunct2, THEN conjunct2, THEN conjunct2] demo_analyze_summary
    by (auto simp: demo_summary_def)
  have n: "(10 :: real) \<noteq> 0" by simp
  from inv near far a b s n f c demo_analyze_summary show ?thesis by blast
qed

end
